theory Spec2Isabelle
  imports Main
begin

section \<open>Booking rules\<close>

text \<open>
  The bookings router (apps/api/src/bookings.ts; its latest text is the last part of
  src/apps/api/src/admin.ts, an earlier text without the availability check is
  src/unnamed/part_000) is embedded function by function.  Instants are JavaScript
  \<open>Date\<close> values: integers counting milliseconds since the epoch.
\<close>

definition SESSION_MIN :: int where
  "SESSION_MIN = 15"

definition BUFFER_MIN :: int where
  "BUFFER_MIN = 5"

definition STEP_MIN :: int where
  "STEP_MIN = SESSION_MIN + BUFFER_MIN"

text \<open>\<open>DAY_START = { hour: 8, minute: 0 }\<close>, \<open>DAY_END = { hour: 15, minute: 0 }\<close>.\<close>

definition DAY_START :: "int \<times> int" where
  "DAY_START = (8, 0)"

definition DAY_END :: "int \<times> int" where
  "DAY_END = (15, 0)"

subsection \<open>Luxon date-times in Europe/Oslo\<close>

text \<open>
  Luxon and the time-zone table are not part of the repository.  A \<open>DateTime\<close> in the
  zone Europe/Oslo built from year, month, day, hour and minute is modelled by its validity
  flag and its wall-clock reading \<open>lmin\<close>: the minutes since 1970-01-01 00:00 on the local
  clock (seconds and milliseconds are zero for every value the router builds).

  The zone table is a parameter \<open>z\<close>: \<open>z d\<close> tells whether summer time (UTC+2) rather
  than standard time (UTC+1) is in force on local day \<open>d\<close>.  One offset per local day is
  exact for every wall-clock time from 03:00 on, since Europe/Oslo changes its offset between
  02:00 and 03:00 local time; the opening hours 08:00 to 15:00 lie inside that range.
\<close>

type_synonym tz = "int \<Rightarrow> bool"

record DateTime =
  isValid :: bool
  lmin :: int

definition offsetMin :: "tz \<Rightarrow> int \<Rightarrow> int" where
  "offsetMin z d = (if z d then 120 else 60)"

text \<open>
  \<open>dt.valueOf()\<close>, \<open>dt.toUTC().toJSDate().getTime()\<close>: the instant in milliseconds.
  Date-times are compared by their instants.
\<close>

definition toMillis :: "tz \<Rightarrow> DateTime \<Rightarrow> int" where
  "toMillis z dt = (lmin dt - offsetMin z (lmin dt div 1440)) * 60 * 1000"

definition isLeapYear :: "int \<Rightarrow> bool" where
  "isLeapYear y = (y mod 4 = 0 \<and> (y mod 100 \<noteq> 0 \<or> y mod 400 = 0))"

definition daysInMonth :: "int \<Rightarrow> int \<Rightarrow> int" where
  "daysInMonth y m =
     (if m = 2 then (if isLeapYear y then 29 else 28)
      else if m = 4 \<or> m = 6 \<or> m = 9 \<or> m = 11 then 30 else 31)"

text \<open>Day number of a date of the proleptic Gregorian calendar, 1970-01-01 being day 0.\<close>

definition daysFromCivil :: "int \<Rightarrow> int \<Rightarrow> int \<Rightarrow> int" where
  "daysFromCivil y m d =
     (let y' = (if m \<le> 2 then y - 1 else y);
          era = y' div 400;
          yoe = y' - era * 400;
          doy = (153 * (if m > 2 then m - 3 else m + 9) + 2) div 5 + d - 1;
          doe = yoe * 365 + yoe div 4 - yoe div 100 + doy
      in era * 146097 + doe - 719468)"

text \<open>
  \<open>DateTime.fromObject({year, month, day, hour, minute}, {zone})\<close>.  Luxon marks the value
  invalid when a field is out of range (it accepts hour 24 with minute 0 as the next
  midnight); an invalid value has no instant.
\<close>

definition fromObject :: "int \<Rightarrow> int \<Rightarrow> int \<Rightarrow> int \<Rightarrow> int \<Rightarrow> DateTime" where
  "fromObject y m d hh mm =
     (if 1 \<le> m \<and> m \<le> 12 \<and> 1 \<le> d \<and> d \<le> daysInMonth y m
         \<and> 0 \<le> mm \<and> mm \<le> 59 \<and> 0 \<le> hh \<and> (hh \<le> 23 \<or> (hh = 24 \<and> mm = 0))
      then \<lparr>isValid = True, lmin = daysFromCivil y m d * 1440 + hh * 60 + mm\<rparr>
      else \<lparr>isValid = False, lmin = 0\<rparr>)"

text \<open>\<open>dt.set({hour, minute})\<close>: same local day, other time of day.\<close>

definition setHM :: "DateTime \<Rightarrow> int \<times> int \<Rightarrow> DateTime" where
  "setHM dt hm = dt\<lparr>lmin := (lmin dt div 1440) * 1440 + fst hm * 60 + snd hm\<rparr>"

text \<open>
  \<open>dt.plus({minutes: n})\<close>.  Luxon adds the minutes on the time line; on the local clock
  that is the same addition as long as the offset stays the same, as it does within a day
  from 03:00 on.
\<close>

definition plusMinutes :: "DateTime \<Rightarrow> int \<Rightarrow> DateTime" where
  "plusMinutes dt n = dt\<lparr>lmin := lmin dt + n\<rparr>"

text \<open>
  \<open>Math.round(dt.diff(other, "minutes").minutes)\<close>: the distance of the two instants in
  minutes; both are whole minutes, so the rounding changes nothing.
\<close>

definition diffMinutes :: "tz \<Rightarrow> DateTime \<Rightarrow> DateTime \<Rightarrow> int" where
  "diffMinutes z dt other = (toMillis z dt - toMillis z other) div (60 * 1000)"

subsection \<open>Strings of the wire format\<close>

definition isDigit :: "char \<Rightarrow> bool" where
  "isDigit c = (48 \<le> (of_char c :: nat) \<and> (of_char c :: nat) \<le> 57)"

definition digitVal :: "char \<Rightarrow> int" where
  "digitVal c = int (of_char c) - 48"

text \<open>\<open>Number(s)\<close> for a string of decimal digits.\<close>

definition Number :: "string \<Rightarrow> int" where
  "Number s = foldl (\<lambda>a c. 10 * a + digitVal c) 0 s"

text \<open>\<open>s.split(c)\<close>.\<close>

fun split :: "char \<Rightarrow> string \<Rightarrow> string list" where
  "split c [] = [[]]"
| "split c (x # xs) =
     (if x = c then [] # split c xs
      else (case split c xs of [] \<Rightarrow> [[x]] | w # ws \<Rightarrow> (x # w) # ws))"

text \<open>The pattern \<open>/^\d{4}-\d{2}-\d{2}$/\<close>.\<close>

fun matchesDate :: "string \<Rightarrow> bool" where
  "matchesDate [a, b, c, d, p, e, f, q, g, h] =
     (isDigit a \<and> isDigit b \<and> isDigit c \<and> isDigit d \<and> p = CHR ''-''
      \<and> isDigit e \<and> isDigit f \<and> q = CHR ''-'' \<and> isDigit g \<and> isDigit h)"
| "matchesDate _ = False"

text \<open>The pattern \<open>/^\d{2}:\d{2}$/\<close>.\<close>

fun matchesTime :: "string \<Rightarrow> bool" where
  "matchesTime [a, b, p, c, d] =
     (isDigit a \<and> isDigit b \<and> p = CHR '':'' \<and> isDigit c \<and> isDigit d)"
| "matchesTime _ = False"

text \<open>
  \<open>const [y, m, d] = date.split("-").map(Number)\<close>.  The handlers reach this line only
  with a string that matched the date pattern, which has exactly three parts.
\<close>

definition dateFields :: "string \<Rightarrow> (int \<times> int \<times> int) option" where
  "dateFields date =
     (case map Number (split (CHR ''-'') date) of
        [y, m, d] \<Rightarrow> Some (y, m, d)
      | _ \<Rightarrow> None)"

definition timeFields :: "string \<Rightarrow> (int \<times> int) option" where
  "timeFields time =
     (case map Number (split (CHR '':'') time) of
        [hh, mm] \<Rightarrow> Some (hh, mm)
      | _ \<Rightarrow> None)"

definition invalidDateTime :: DateTime where
  "invalidDateTime = \<lparr>isValid = False, lmin = 0\<rparr>"

definition parseOsloDateTime :: "string \<Rightarrow> string \<Rightarrow> DateTime" where
  "parseOsloDateTime date time =
     (case (dateFields date, timeFields time) of
        (Some (y, m, d), Some (hh, mm)) \<Rightarrow> fromObject y m d hh mm
      | _ \<Rightarrow> invalidDateTime)"

text \<open>\<open>t.toFormat("HH:mm")\<close>: hour and minute of the local clock, two digits each.\<close>

definition digitChar :: "int \<Rightarrow> char" where
  "digitChar k = char_of (48 + nat k)"

definition pad2 :: "int \<Rightarrow> string" where
  "pad2 n = [digitChar (n div 10), digitChar (n mod 10)]"

definition formatHHmm :: "int \<Rightarrow> string" where
  "formatHHmm m = pad2 (m div 60) @ '':'' @ pad2 (m mod 60)"

definition toFormatHHmm :: "DateTime \<Rightarrow> string" where
  "toFormatHHmm dt = formatHHmm (lmin dt mod 1440)"

subsection \<open>Grid and opening hours\<close>

definition isAlignedToStep :: "tz \<Rightarrow> DateTime \<Rightarrow> bool" where
  "isAlignedToStep z dt =
     (let dayStart = setHM dt DAY_START;
          diffMin = diffMinutes z dt dayStart
      in diffMin \<ge> 0 \<and> diffMin mod STEP_MIN = 0)"

datatype hours_check = HoursOk | BeforeOpening | ExceedsClosing

definition validateWithinBusinessHours :: "tz \<Rightarrow> DateTime \<Rightarrow> int \<Rightarrow> hours_check" where
  "validateWithinBusinessHours z start sessions =
     (let dayStart = setHM start DAY_START;
          dayEnd = setHM start DAY_END
      in if toMillis z start < toMillis z dayStart then BeforeOpening
         else
           let lastStart = plusMinutes start ((sessions - 1) * STEP_MIN);
               lastEnd = plusMinutes lastStart SESSION_MIN
           in if toMillis z lastEnd > toMillis z dayEnd then ExceedsClosing
              else HoursOk)"

text \<open>The \<open>message\<close> of a failed check.\<close>

fun hoursMessage :: "hours_check \<Rightarrow> string" where
  "hoursMessage HoursOk = []"
| "hoursMessage BeforeOpening = ''Start time is before opening hours (08:00).''"
| "hoursMessage ExceedsClosing =
     ''Selected sessions exceed opening hours (must end by 15:00 Oslo time).''"

definition buildSessionStartsUtc :: "tz \<Rightarrow> DateTime \<Rightarrow> int \<Rightarrow> int list" where
  "buildSessionStartsUtc z startOslo sessions =
     map (\<lambda>i. toMillis z (plusMinutes startOslo (int i * STEP_MIN))) [0..<nat sessions]"

section \<open>The tables\<close>

text \<open>
  The rows the router reads and writes (migration SQL in src/apps/api/src/admin.ts).
  A booking is the data the router supplies (\<open>bnote\<close> is the column \<open>note\<close>) plus the
  primary key \<open>id\<close> that is generated for it.  A query without \<open>orderBy\<close> returns its
  rows in the order of the table.
\<close>

datatype BookingStatus = PENDING | CONFIRMED | CANCELLED

record Service =
  svcId :: string
  isActive :: bool
  durationMin :: int

record AvailabilitySlot =
  slotServiceId :: string
  slotStartAt :: int
  slotEndAt :: int

record BookingData =
  userId :: string
  serviceId :: string
  startAt :: int
  endAt :: int
  status :: BookingStatus
  bnote :: "string option"

record Booking = BookingData +
  bookingId :: nat

text \<open>
  \<open>nextId\<close> stands for the generator of primary keys: every key it hands out is new.
\<close>

record store =
  services :: "Service list"
  slots :: "AvailabilitySlot list"
  bookings :: "Booking list"
  nextId :: nat

text \<open>\<open>isSessionCoveredBySlots(startAt, endAt, slots)\<close>: \<open>slots.some(...)\<close>.\<close>

definition isSessionCoveredBySlots :: "int \<Rightarrow> int \<Rightarrow> AvailabilitySlot list \<Rightarrow> bool" where
  "isSessionCoveredBySlots startAt' endAt' ss =
     list_ex (\<lambda>s. slotStartAt s \<le> startAt' \<and> slotEndAt s \<ge> endAt') ss"

text \<open>\<open>prisma.service.findUnique({ where: { id } })\<close>.\<close>

definition findUniqueService :: "store \<Rightarrow> string \<Rightarrow> Service option" where
  "findUniqueService st sid = find (\<lambda>s. svcId s = sid) (services st)"

text \<open>
  \<open>prisma.availabilitySlot.findMany\<close> with \<open>startAt: { lt: hi }\<close>, \<open>endAt: { gt: lo }\<close>,
  ordered by \<open>startAt\<close>.
\<close>

definition findSlotsOverlapping :: "store \<Rightarrow> string \<Rightarrow> int \<Rightarrow> int \<Rightarrow> AvailabilitySlot list" where
  "findSlotsOverlapping st sid lo hi =
     sort_key slotStartAt
       (filter (\<lambda>s. slotServiceId s = sid \<and> slotStartAt s < hi \<and> slotEndAt s > lo) (slots st))"

text \<open>
  \<open>prisma.booking.createMany({ data: rows })\<close>: one statement that appends every row
  under a new primary key and returns the number of rows.  The Booking table declares the
  primary key on \<open>id\<close> and two plain (non-unique) indexes, on \<open>(serviceId, startAt)\<close> and on
  \<open>(userId, createdAt)\<close>; no declared constraint looks at the start instant of a row.
\<close>

definition withId :: "nat \<Rightarrow> BookingData \<Rightarrow> Booking" where
  "withId n r =
     \<lparr>userId = userId r, serviceId = serviceId r, startAt = startAt r, endAt = endAt r,
      status = status r, bnote = bnote r, bookingId = n\<rparr>"

definition createMany :: "store \<Rightarrow> BookingData list \<Rightarrow> nat \<times> store" where
  "createMany st rows =
     (length rows,
      st\<lparr>bookings := bookings st @ map (\<lambda>(i, r). withId (nextId st + i) r) (enumerate 0 rows),
         nextId := nextId st + length rows\<rparr>)"

section \<open>GET /bookings/availability\<close>

datatype avail_response =
    Times "string list"
  | AvailBadRequest string
  | AvailNotFound string
  | AvailUnhandled

text \<open>
  The grid walk
  \<open>for (let t = dayStartOslo; t < dayEndOslo; t = t.plus({ minutes: STEP_MIN }))\<close>,
  with the array \<open>times\<close> it pushes to.  \<open>booked\<close> holds the start instants whose ISO
  strings make up \<open>bookedSet\<close>.
\<close>

function gridWalk ::
  "tz \<Rightarrow> AvailabilitySlot list \<Rightarrow> int list \<Rightarrow> DateTime \<Rightarrow> string list \<Rightarrow> DateTime \<Rightarrow> string list"
where
  "gridWalk z ss booked dayEndOslo times' t =
     (if toMillis z t < toMillis z dayEndOslo then
        (let startUtc = toMillis z t;
             endUtc = startUtc + SESSION_MIN * 60 * 1000;
             covered = list_ex (\<lambda>s. slotStartAt s \<le> startUtc \<and> slotEndAt s \<ge> endUtc) ss
         in if \<not> covered then gridWalk z ss booked dayEndOslo times' (plusMinutes t STEP_MIN)
            else if startUtc \<in> set booked
              then gridWalk z ss booked dayEndOslo times' (plusMinutes t STEP_MIN)
            else gridWalk z ss booked dayEndOslo (times' @ [toFormatHHmm t])
                   (plusMinutes t STEP_MIN))
      else times')"
  by pat_completeness auto

termination gridWalk
  by (relation "measure (\<lambda>(z, ss, booked, e, acc, t). nat (lmin e + 60 - lmin t))")
     (auto simp: plusMinutes_def STEP_MIN_def SESSION_MIN_def BUFFER_MIN_def toMillis_def
        offsetMin_def split: if_splits)

declare gridWalk.simps [simp del]

text \<open>
  \<open>prisma.booking.findMany\<close> with \<open>status: { not: "CANCELLED" }\<close> and
  \<open>startAt: { gte: lo, lt: hi }\<close>, selecting \<open>startAt\<close>.
\<close>

definition findBookedStarts :: "store \<Rightarrow> string \<Rightarrow> int \<Rightarrow> int \<Rightarrow> int list" where
  "findBookedStarts st sid lo hi =
     map startAt
       (filter (\<lambda>b. serviceId b = sid \<and> status b \<noteq> CANCELLED \<and> lo \<le> startAt b \<and> startAt b < hi)
          (bookings st))"

text \<open>
  The handler.  It never reads the clock.  It checks the date against the pattern only: for
  a string such as 2026-02-30 both day bounds are invalid date-times, the queries receive
  an invalid \<open>Date\<close>, and the handler sends no list of times (\<open>AvailUnhandled\<close>).
\<close>

definition getAvailability :: "tz \<Rightarrow> store \<Rightarrow> string \<Rightarrow> string \<Rightarrow> avail_response" where
  "getAvailability z st sid date =
     (if sid = [] then AvailBadRequest ''serviceId is required''
      else if \<not> matchesDate date then AvailBadRequest ''date must be YYYY-MM-DD''
      else (case findUniqueService st sid of
          None \<Rightarrow> AvailNotFound ''Service not found or inactive''
        | Some service \<Rightarrow>
            if \<not> isActive service then AvailNotFound ''Service not found or inactive''
            else if durationMin service \<noteq> SESSION_MIN
              then AvailBadRequest ''Service duration must be 15 minutes''
            else (case dateFields date of
                None \<Rightarrow> AvailUnhandled
              | Some (y, m, d) \<Rightarrow>
                  (let dayStartOslo = fromObject y m d (fst DAY_START) (snd DAY_START);
                       dayEndOslo = fromObject y m d (fst DAY_END) (snd DAY_END)
                   in if \<not> isValid dayStartOslo then AvailUnhandled
                      else
                        (let dayStartUtc = toMillis z dayStartOslo;
                             dayEndUtc = toMillis z dayEndOslo;
                             ss = findSlotsOverlapping st sid dayStartUtc dayEndUtc;
                             booked = findBookedStarts st sid dayStartUtc dayEndUtc
                         in Times (gridWalk z ss booked dayEndOslo [] dayStartOslo))))))"

section \<open>POST /bookings\<close>

record body =
  reqServiceId :: string
  reqDate :: string
  reqStartTime :: string
  reqSessions :: int
  reqNote :: "string option"

text \<open>\<open>createBookingSchema\<close>; \<open>sessions\<close> is an integer between 1 and 30.\<close>

definition createBookingSchema :: "body \<Rightarrow> bool" where
  "createBookingSchema b =
     (length (reqServiceId b) \<ge> 1 \<and> matchesDate (reqDate b) \<and> matchesTime (reqStartTime b)
      \<and> 1 \<le> reqSessions b \<and> reqSessions b \<le> 30
      \<and> (case reqNote b of None \<Rightarrow> True | Some n \<Rightarrow> length n \<le> 500))"

text \<open>The rejections of the validation steps, in the order of the handler.\<close>

datatype reject =
    InvalidDateTime
  | NotAligned
  | OutsideHours hours_check
  | InThePast
  | ServiceNotFound
  | WrongDuration
  | NotWithinAvailability

fun rejectStatus :: "reject \<Rightarrow> nat" where
  "rejectStatus ServiceNotFound = 404"
| "rejectStatus _ = 400"

fun rejectMessage :: "reject \<Rightarrow> string" where
  "rejectMessage InvalidDateTime = ''Invalid date/startTime''"
| "rejectMessage NotAligned =
     ''startTime must be aligned to 20-minute slots from 08:00 (e.g. 08:00, 08:20, 08:40 ...)''"
| "rejectMessage (OutsideHours h) = hoursMessage h"
| "rejectMessage InThePast = ''Cannot book a time in the past''"
| "rejectMessage ServiceNotFound = ''Service not found or inactive''"
| "rejectMessage WrongDuration = ''Service duration must be 15 minutes for this booking flow''"
| "rejectMessage NotWithinAvailability =
     ''Selected time is not within admin availability for this service''"

text \<open>The rows of the two answers: \<open>select: { id, startAt }\<close> and
  \<open>select: { id, startAt, endAt, status }\<close>.\<close>

record ConflictRow =
  conflictId :: nat
  conflictStartAt :: int

record CreatedRow =
  createdId :: nat
  createdStartAt :: int
  createdEndAt :: int
  createdStatus :: BookingStatus

datatype response =
    ValidationErrors
  | Unauthorized
  | Rejected reject
  | Conflict "ConflictRow list"
  | Booked nat "CreatedRow list"
  | ServerError

fun statusCode :: "response \<Rightarrow> nat" where
  "statusCode ValidationErrors = 400"
| "statusCode Unauthorized = 401"
| "statusCode (Rejected r) = rejectStatus r"
| "statusCode (Conflict cs) = 409"
| "statusCode (Booked n bs) = 201"
| "statusCode ServerError = 500"

text \<open>
  What the storage layer can raise while a statement runs: Prisma's P2002 (a unique
  constraint failed) or anything else (connection lost, foreign key, ...).
\<close>

datatype db_error = UniqueConstraintFailed | OtherDbError

datatype tx_result =
    TxConflicts "ConflictRow list"
  | TxCreated nat "CreatedRow list"

definition selectConflict :: "Booking \<Rightarrow> ConflictRow" where
  "selectConflict b = \<lparr>conflictId = bookingId b, conflictStartAt = startAt b\<rparr>"

definition selectCreated :: "Booking \<Rightarrow> CreatedRow" where
  "selectCreated b =
     \<lparr>createdId = bookingId b, createdStartAt = startAt b, createdEndAt = endAt b,
      createdStatus = status b\<rparr>"

text \<open>
  The callback of \<open>prisma.$transaction\<close>, run as one unit against the store.  \<open>fault\<close> is
  what the storage layer raises at the \<open>createMany\<close> statement, if anything; the exception
  leaves the callback, the transaction is rolled back, and the store stays as it was.
\<close>

definition bookingTransaction ::
  "db_error option \<Rightarrow> store \<Rightarrow> string \<Rightarrow> string \<Rightarrow> int list \<Rightarrow> string option
     \<Rightarrow> db_error + (tx_result \<times> store)"
where
  "bookingTransaction fault st uid sid startsUtc nt =
     (let conflicts =
            filter (\<lambda>b. serviceId b = sid \<and> status b \<noteq> CANCELLED \<and> startAt b \<in> set startsUtc)
              (bookings st)
      in if length conflicts > 0 then Inr (TxConflicts (map selectConflict conflicts), st)
         else
           (let rows = map (\<lambda>s. \<lparr>userId = uid, serviceId = sid, startAt = s,
                                  endAt = s + SESSION_MIN * 60 * 1000, status = CONFIRMED,
                                  bnote = nt\<rparr>) startsUtc
            in case fault of
                 Some e \<Rightarrow> Inl e
               | None \<Rightarrow>
                   (let (count, st') = createMany st rows;
                        createdBookings =
                          sort_key startAt
                            (filter (\<lambda>b. userId b = uid \<and> serviceId b = sid
                                          \<and> startAt b \<in> set startsUtc) (bookings st'))
                    in Inr (TxCreated count (map selectCreated createdBookings), st'))))"

text \<open>
  The handler, after \<open>requireAuth\<close>: \<open>user\<close> is \<open>req.user?.userId\<close> (the test
  \<open>!userId\<close> holds for a missing and for an empty identifier), \<open>now\<close> the instant
  \<open>DateTime.now()\<close> reads.  \<open>sessions\<close> is at least 1 once the schema has accepted the
  body, so \<open>startsUtc\<close> has a first and a last element.
\<close>

definition postBookings ::
  "tz \<Rightarrow> int \<Rightarrow> db_error option \<Rightarrow> store \<Rightarrow> string option \<Rightarrow> body \<Rightarrow> response \<times> store"
where
  "postBookings z now fault st user b =
     (if \<not> createBookingSchema b then (ValidationErrors, st)
      else (case user of
          None \<Rightarrow> (Unauthorized, st)
        | Some uid \<Rightarrow>
           if uid = [] then (Unauthorized, st)
           else
           (let startOslo = parseOsloDateTime (reqDate b) (reqStartTime b)
            in if \<not> isValid startOslo then (Rejected InvalidDateTime, st)
               else if \<not> isAlignedToStep z startOslo then (Rejected NotAligned, st)
               else
                (let hoursCheck = validateWithinBusinessHours z startOslo (reqSessions b)
                 in if hoursCheck \<noteq> HoursOk then (Rejected (OutsideHours hoursCheck), st)
                    else if toMillis z startOslo < now then (Rejected InThePast, st)
                    else (case findUniqueService st (reqServiceId b) of
                        None \<Rightarrow> (Rejected ServiceNotFound, st)
                      | Some service \<Rightarrow>
                          if \<not> isActive service then (Rejected ServiceNotFound, st)
                          else if durationMin service \<noteq> SESSION_MIN
                            then (Rejected WrongDuration, st)
                          else
                           (let startsUtc = buildSessionStartsUtc z startOslo (reqSessions b);
                                firstStartUtc = hd startsUtc;
                                lastStartUtc = last startsUtc;
                                lastEndUtc = lastStartUtc + SESSION_MIN * 60 * 1000;
                                candidateSlots =
                                  findSlotsOverlapping st (reqServiceId b) firstStartUtc lastEndUtc
                            in if \<not> list_all (\<lambda>s. isSessionCoveredBySlots s
                                      (s + SESSION_MIN * 60 * 1000) candidateSlots) startsUtc
                               then (Rejected NotWithinAvailability, st)
                               else (case bookingTransaction fault st uid (reqServiceId b)
                                            startsUtc (reqNote b) of
                                   Inl e \<Rightarrow> (ServerError, st)
                                 | Inr (TxConflicts cs, st') \<Rightarrow> (Conflict cs, st')
                                 | Inr (TxCreated n bs, st') \<Rightarrow> (Booked n bs, st'))))))))"

section \<open>The specification's reading of the availability computation\<close>

text \<open>
  The grid of the specification: the times of day, in minutes after midnight, from
  \<open>DAY_START\<close> up to but excluding \<open>DAY_END\<close>, a whole number of steps after
  \<open>DAY_START\<close>.  \<open>localInstant\<close> is the instant of a time of day on a calendar date.
  \<open>availableStarts_spec\<close> keeps the grid candidates that some fetched window contains and
  that no fetched booking starts at.
\<close>

definition dayStartMin :: int where
  "dayStartMin = fst DAY_START * 60 + snd DAY_START"

definition dayEndMin :: int where
  "dayEndMin = fst DAY_END * 60 + snd DAY_END"

definition gridCandidates :: "int list" where
  "gridCandidates = filter (\<lambda>t. (t - dayStartMin) mod STEP_MIN = 0) [dayStartMin..dayEndMin - 1]"

definition localInstant :: "tz \<Rightarrow> int \<Rightarrow> int \<Rightarrow> int \<Rightarrow> int \<Rightarrow> int" where
  "localInstant z y m d t = toMillis z (fromObject y m d (t div 60) (t mod 60))"

definition availableStarts_spec :: "tz \<Rightarrow> store \<Rightarrow> string \<Rightarrow> int \<Rightarrow> int \<Rightarrow> int \<Rightarrow> int list" where
  "availableStarts_spec z st sid y m d =
     (let dayStartInstant = localInstant z y m d dayStartMin;
          dayEndInstant = localInstant z y m d dayEndMin;
          windows = filter (\<lambda>w. slotServiceId w = sid \<and> slotStartAt w < dayEndInstant
                                \<and> slotEndAt w > dayStartInstant) (slots st);
          booked = filter (\<lambda>b. serviceId b = sid \<and> status b \<noteq> CANCELLED
                                \<and> dayStartInstant \<le> startAt b \<and> startAt b < dayEndInstant) (bookings st)
      in filter (\<lambda>t. let candidateStart = localInstant z y m d t;
                          candidateEnd = candidateStart + SESSION_MIN * 60 * 1000
                      in (\<exists>w \<in> set windows. slotStartAt w \<le> candidateStart \<and> slotEndAt w \<ge> candidateEnd)
                         \<and> candidateStart \<notin> startAt ` set booked)
           gridCandidates)"

section \<open>Example data\<close>

text \<open>
  A winter day (standard time all year in \<open>winter\<close>), the seeded service, one window
  from 09:00 to 12:00 local time on 2026-01-15, and no bookings.
\<close>

definition winter :: tz where
  "winter = (\<lambda>d. False)"

definition singing :: Service where
  "singing = \<lparr>svcId = ''singing-15'', isActive = True, durationMin = 15\<rparr>"

definition exampleStore :: store where
  "exampleStore =
     \<lparr>services = [singing],
      slots = [\<lparr>slotServiceId = ''singing-15'', slotStartAt = 1768464000000,
                slotEndAt = 1768474800000\<rparr>],
      bookings = [], nextId = 0\<rparr>"

section \<open>The rows a commit writes\<close>

text \<open>
  \<open>sessionRow\<close> is the row the transaction builds for one session start; \<open>insertedRows\<close>
  are those rows under the primary keys \<open>createMany\<close> gives them, the first one being
  \<open>first\<close>.
\<close>

definition sessionRow :: "string \<Rightarrow> string \<Rightarrow> string option \<Rightarrow> int \<Rightarrow> BookingData" where
  "sessionRow uid sid nt s =
     \<lparr>userId = uid, serviceId = sid, startAt = s, endAt = s + SESSION_MIN * 60 * 1000,
      status = CONFIRMED, bnote = nt\<rparr>"

definition insertedRows :: "string \<Rightarrow> string \<Rightarrow> string option \<Rightarrow> nat \<Rightarrow> int list \<Rightarrow> Booking list" where
  "insertedRows uid sid nt first startsUtc =
     map (\<lambda>(i, s). withId (first + i) (sessionRow uid sid nt s)) (enumerate 0 startsUtc)"

definition afterInsert :: "store \<Rightarrow> string \<Rightarrow> string \<Rightarrow> string option \<Rightarrow> int list \<Rightarrow> store" where
  "afterInsert st uid sid nt startsUtc =
     st\<lparr>bookings := bookings st @ insertedRows uid sid nt (nextId st) startsUtc,
        nextId := nextId st + length startsUtc\<rparr>"

text \<open>The rows the conflict check of the transaction finds.\<close>

definition conflictingBookings :: "store \<Rightarrow> string \<Rightarrow> int list \<Rightarrow> Booking list" where
  "conflictingBookings st sid startsUtc =
     filter (\<lambda>b. serviceId b = sid \<and> status b \<noteq> CANCELLED \<and> startAt b \<in> set startsUtc)
       (bookings st)"

section \<open>The validation pipeline of the specification\<close>

text \<open>
  The verdict of every validation step of the commit, each computed on its own from the
  request, the clock and the store, in the order of the specification: the date-time is
  real, the start is on the grid, the sessions fit the opening hours, the start is not in
  the past, the service is there, active and of 15 minutes, and every session lies inside a
  window.  \<open>firstFailure\<close> is the first rejection in that list.
\<close>

definition serviceFailure :: "store \<Rightarrow> string \<Rightarrow> reject option" where
  "serviceFailure st sid =
     (case findUniqueService st sid of
        None \<Rightarrow> Some ServiceNotFound
      | Some service \<Rightarrow>
          if \<not> isActive service then Some ServiceNotFound
          else if durationMin service \<noteq> SESSION_MIN then Some WrongDuration
          else None)"

definition sessionsCovered :: "store \<Rightarrow> string \<Rightarrow> int list \<Rightarrow> bool" where
  "sessionsCovered st sid startsUtc =
     list_all (\<lambda>s. list_ex (\<lambda>w. slotServiceId w = sid
                          \<and> slotStartAt w < last startsUtc + SESSION_MIN * 60 * 1000
                          \<and> slotEndAt w > hd startsUtc
                          \<and> slotStartAt w \<le> s \<and> slotEndAt w \<ge> s + SESSION_MIN * 60 * 1000)
                     (slots st))
       startsUtc"

definition pipeline_spec :: "tz \<Rightarrow> int \<Rightarrow> store \<Rightarrow> body \<Rightarrow> reject option list" where
  "pipeline_spec z now st b =
     (let start = parseOsloDateTime (reqDate b) (reqStartTime b)
      in [if isValid start then None else Some InvalidDateTime,
          if isAlignedToStep z start then None else Some NotAligned,
          (case validateWithinBusinessHours z start (reqSessions b) of
             HoursOk \<Rightarrow> None
           | BeforeOpening \<Rightarrow> Some (OutsideHours BeforeOpening)
           | ExceedsClosing \<Rightarrow> Some (OutsideHours ExceedsClosing)),
          if toMillis z start < now then Some InThePast else None,
          serviceFailure st (reqServiceId b),
          if sessionsCovered st (reqServiceId b) (buildSessionStartsUtc z start (reqSessions b))
          then None else Some NotWithinAvailability])"

fun firstFailure :: "reject option list \<Rightarrow> reject option" where
  "firstFailure [] = None"
| "firstFailure (None # rs) = firstFailure rs"
| "firstFailure (Some r # rs) = Some r"

section \<open>The invariant of the Booking table\<close>

text \<open>
  No two bookings that are not cancelled share service and start instant.
\<close>

definition uniqueActiveStarts :: "store \<Rightarrow> bool" where
  "uniqueActiveStarts st =
     distinct (map (\<lambda>b. (serviceId b, startAt b))
                 (filter (\<lambda>b. status b \<noteq> CANCELLED) (bookings st)))"

text \<open>
  Modelled from the spec: the cancellation path is not in the repository.  The specification
  says that a booking "transitions to CANCELLED by an out-of-scope cancellation path" and is
  "never physically deleted"; \<open>cancelBooking\<close> sets the status of the bookings with the
  given primary key and changes nothing else.
\<close>

definition cancelBooking :: "store \<Rightarrow> nat \<Rightarrow> store" where
  "cancelBooking st k =
     st\<lparr>bookings := map (\<lambda>b. if bookingId b = k then b\<lparr>status := CANCELLED\<rparr> else b) (bookings st)\<rparr>"

text \<open>
  The stores that arise from an empty Booking table when commits run one after the other,
  each transaction as a unit, with cancellations in between.
\<close>

inductive reachable :: "store \<Rightarrow> bool" where
  initial: "bookings st = [] \<Longrightarrow> reachable st"
| commit: "reachable st \<Longrightarrow> reachable (snd (postBookings z now fault st user b))"
| cancel: "reachable st \<Longrightarrow> reachable (cancelBooking st k)"

text \<open>
  The example store with the 09:00 slot of 2026-01-15 taken by a confirmed booking, and with
  that booking cancelled.
\<close>

definition bookedStore :: store where
  "bookedStore =
     exampleStore\<lparr>bookings := [withId 0 (sessionRow ''user-1'' ''singing-15'' None 1768464000000)],
                  nextId := 1\<rparr>"

definition cancelledStore :: store where
  "cancelledStore = cancelBooking bookedStore 0"

section \<open>Local times that do not exist\<close>

text \<open>
  The specification counts a nonexistent civil time as not being a real local date-time.
  In Europe/Oslo the clock is set from 02:00 to 03:00 on the day summer time begins, so the
  wall-clock times from 02:00 up to but excluding 03:00 of that day do not exist.
  \<open>inClockChangeGap\<close> tells whether a date-time reads such a time: its day is the first
  day of summer time in the zone table and its time of day lies in that hour.
  \<open>oslo2026\<close> is the zone table of the year 2026: summer time from 2026-03-29 (day 20541)
  to 2026-10-25 (day 20751).
\<close>

definition inClockChangeGap :: "tz \<Rightarrow> DateTime \<Rightarrow> bool" where
  "inClockChangeGap z dt =
     (z (lmin dt div 1440) \<and> \<not> z (lmin dt div 1440 - 1)
      \<and> 2 * 60 \<le> lmin dt mod 1440 \<and> lmin dt mod 1440 < 3 * 60)"

definition oslo2026 :: tz where
  "oslo2026 = (\<lambda>d. 20541 \<le> d \<and> d < 20751)"

section \<open>Properties\<close>

subsection \<open>Facts about the clock\<close>

lemma offsetMin_bounds: "60 \<le> offsetMin z d \<and> offsetMin z d \<le> 120"
  by (simp add: offsetMin_def)

lemma ms_less: "((a::int) * 60 * 1000 < b * 60 * 1000) = (a < b)"
  by simp

lemma lmin_setHM: "lmin (setHM dt (h, m)) = (lmin dt div 1440) * 1440 + h * 60 + m"
  by (simp add: setHM_def)

lemma lmin_fromObject:
  assumes "isValid (fromObject y m d hh mm)"
  shows "lmin (fromObject y m d hh mm) = daysFromCivil y m d * 1440 + hh * 60 + mm"
  using assms by (auto simp: fromObject_def split: if_splits)

lemma fromObject_fields:
  assumes "isValid (fromObject y m d hh mm)"
  shows "0 \<le> mm \<and> mm \<le> 59 \<and> 0 \<le> hh \<and> hh \<le> 24"
  using assms by (auto simp: fromObject_def split: if_splits)

lemma fromObject_time_of_day:
  assumes "isValid (fromObject y m d hh mm)" and "hh \<le> 23"
  shows "lmin (fromObject y m d hh mm) div 1440 = daysFromCivil y m d"
    and "lmin (fromObject y m d hh mm) mod 1440 = hh * 60 + mm"
proof -
  have f: "0 \<le> mm" "mm \<le> 59" "0 \<le> hh" using fromObject_fields[OF assms(1)] by simp_all
  have r: "0 \<le> hh * 60 + mm" "hh * 60 + mm < 1440" using f assms(2) by simp_all
  have l: "lmin (fromObject y m d hh mm) = daysFromCivil y m d * 1440 + (hh * 60 + mm)"
    using lmin_fromObject[OF assms(1)] by simp
  show "lmin (fromObject y m d hh mm) div 1440 = daysFromCivil y m d"
    unfolding l using r by simp
  show "lmin (fromObject y m d hh mm) mod 1440 = hh * 60 + mm"
    unfolding l using r by simp
qed

text \<open>The opening-hours check, read off the time of day of any date-time.\<close>

lemma validateWithinBusinessHours_time_of_day:
  assumes "1 \<le> sessions"
  shows "(validateWithinBusinessHours z start sessions = HoursOk) =
     (8 * 60 \<le> lmin start mod 1440 \<and> lmin start mod 1440 + (sessions - 1) * 20 + 15 \<le> 15 * 60)"
proof -
  define D where "D = lmin start div 1440"
  define t where "t = lmin start mod 1440"
  have l: "lmin start = D * 1440 + t" and t: "0 \<le> t" "t < 1440"
    by (simp_all add: D_def t_def)
  define e where "e = t + (sessions - 1) * 20 + 15"
  have e0: "e \<ge> t + 15" using assms by (simp add: e_def)
  have b: "60 \<le> offsetMin z (D + e div 1440)" "offsetMin z (D + e div 1440) \<le> 120" 
      "60 \<le> offsetMin z D" "offsetMin z D \<le> 120"
    using offsetMin_bounds by simp_all
  have tdiv: "t div 1440 = 0" using t by simp
  have ms_start: "toMillis z start = (D * 1440 + t - offsetMin z D) * 60 * 1000"
    by (simp add: toMillis_def l tdiv)
  have ms_ds: "toMillis z (setHM start DAY_START) = (D * 1440 + 480 - offsetMin z D) * 60 * 1000"
    by (simp add: toMillis_def lmin_setHM DAY_START_def D_def)
  have ms_de: "toMillis z (setHM start DAY_END) = (D * 1440 + 900 - offsetMin z D) * 60 * 1000"
    by (simp add: toMillis_def lmin_setHM DAY_END_def D_def)
  have le: "lmin (plusMinutes (plusMinutes start ((sessions - 1) * STEP_MIN)) SESSION_MIN) = D * 1440 + e"
    by (simp add: plusMinutes_def STEP_MIN_def SESSION_MIN_def BUFFER_MIN_def l e_def)
  have ms_le: "toMillis z (plusMinutes (plusMinutes start ((sessions - 1) * STEP_MIN)) SESSION_MIN)
      = (D * 1440 + e - offsetMin z (D + e div 1440)) * 60 * 1000"
    unfolding toMillis_def le by simp
  have key: "((D * 1440 + e - offsetMin z (D + e div 1440)) > (D * 1440 + 900 - offsetMin z D)) = (e > 900)"
  proof (cases "e < 1440")
    case True
    then have "e div 1440 = 0" using e0 t by simp
    then show ?thesis by simp
  next
    case False
    then show ?thesis using b by linarith
  qed
  have before: "(toMillis z start < toMillis z (setHM start DAY_START)) = (t < 480)"
    unfolding ms_start ms_ds ms_less by linarith
  have after: "(toMillis z (plusMinutes (plusMinutes start ((sessions - 1) * STEP_MIN)) SESSION_MIN)
       > toMillis z (setHM start DAY_END)) = (e > 900)"
    unfolding ms_le ms_de ms_less by (rule key)
  show ?thesis
    unfolding validateWithinBusinessHours_def Let_def before after
    by (auto simp: t_def e_def)
qed

text \<open>
  C4.  For a valid local start time \<open>hh:mm\<close> and at least one session,
  \<open>validateWithinBusinessHours\<close> succeeds exactly when the start is not before 08:00 and
  the last session, starting \<open>(sessions - 1) * 20\<close> minutes later and lasting 15 minutes,
  ends at 15:00 or earlier.  The end bound is not strict: the closing check fails only on
  \<open>lastEnd > dayEnd\<close>.
\<close>

theorem validateWithinBusinessHours_iff:
  assumes "isValid (fromObject y m d hh mm)" and "hh \<le> 23" and "1 \<le> sessions"
  shows "(validateWithinBusinessHours z (fromObject y m d hh mm) sessions = HoursOk) =
     (fst DAY_START * 60 + snd DAY_START \<le> hh * 60 + mm
      \<and> hh * 60 + mm + (sessions - 1) * STEP_MIN + SESSION_MIN \<le> fst DAY_END * 60 + snd DAY_END)"
  unfolding validateWithinBusinessHours_time_of_day[OF assms(3)]
    fromObject_time_of_day(2)[OF assms(1,2)]
  by (simp add: DAY_START_def DAY_END_def STEP_MIN_def SESSION_MIN_def BUFFER_MIN_def)

text \<open>A single session from 14:45 to 15:00 is accepted.\<close>

theorem validateWithinBusinessHours_iff_witness:
  "isValid (fromObject 2026 1 15 14 45) \<and>
   validateWithinBusinessHours (\<lambda>_. False) (fromObject 2026 1 15 14 45) 1 = HoursOk \<and>
   validateWithinBusinessHours (\<lambda>_. False) (fromObject 2026 1 15 14 40) 2 = ExceedsClosing \<and>
   validateWithinBusinessHours (\<lambda>_. False) (fromObject 2026 1 15 7 40) 1 = BeforeOpening"
proof -
  have v: "isValid (fromObject 2026 1 15 14 45)"
    by (simp add: fromObject_def daysInMonth_def)
  have "validateWithinBusinessHours (\<lambda>_. False) (fromObject 2026 1 15 14 45) 1 = HoursOk"
    using validateWithinBusinessHours_iff[OF v, of 1 "\<lambda>_. False"]
    by (simp add: DAY_START_def DAY_END_def STEP_MIN_def SESSION_MIN_def BUFFER_MIN_def)
  moreover have "validateWithinBusinessHours (\<lambda>_. False) (fromObject 2026 1 15 14 40) 2 = ExceedsClosing"
    by code_simp
  moreover have "validateWithinBusinessHours (\<lambda>_. False) (fromObject 2026 1 15 7 40) 1 = BeforeOpening"
    by code_simp
  ultimately show ?thesis using v by simp
qed

subsection \<open>The grid walk\<close>

lemma gridCandidates_eq: "gridCandidates = map (\<lambda>k. 480 + 20 * int k) [0..<21]"
  by code_simp

lemma toMillis_in_day:
  assumes "lmin t = D * 1440 + m" and "0 \<le> m" and "m < 1440"
  shows "toMillis z t = (D * 1440 + m - offsetMin z D) * 60 * 1000"
proof -
  have "(D * 1440 + m) div 1440 = D" using assms(2,3) by simp
  then show ?thesis by (simp add: toMillis_def assms(1))
qed

lemma gridWalk_grid:
  assumes e: "lmin e = D * 1440 + 900"
    and t: "lmin t = D * 1440 + 480 + 20 * int k" and k: "k \<le> 21"
  shows "gridWalk z ss booked e acc t =
     acc @ map formatHHmm
       (filter (\<lambda>m. list_ex (\<lambda>s. slotStartAt s \<le> (D * 1440 + m - offsetMin z D) * 60 * 1000
                       \<and> slotEndAt s \<ge> (D * 1440 + m - offsetMin z D) * 60 * 1000 + 15 * 60 * 1000) ss
                     \<and> (D * 1440 + m - offsetMin z D) * 60 * 1000 \<notin> set booked)
          (map (\<lambda>j. 480 + 20 * int j) [k..<21]))"
  using t k
proof (induction "21 - k" arbitrary: k t acc)
  case 0
  then have k21: "k = 21" by simp
  have "toMillis z t = toMillis z e"
    using 0(2) e by (simp add: toMillis_def k21)
  then show ?case
    by (subst gridWalk.simps) (simp add: k21)
next
  case (Suc n)
  then have klt: "k < 21" by simp
  have tm: "toMillis z t = (D * 1440 + (480 + 20 * int k) - offsetMin z D) * 60 * 1000"
    by (rule toMillis_in_day) (use Suc.prems klt in simp_all)
  have em: "toMillis z e = (D * 1440 + 900 - offsetMin z D) * 60 * 1000"
    by (rule toMillis_in_day) (use e in simp_all)
  have cond: "toMillis z t < toMillis z e"
    unfolding tm em using klt by simp
  have fmt: "toFormatHHmm t = formatHHmm (480 + 20 * int k)"
  proof -
    have "(D * 1440 + (480 + 20 * int k)) mod 1440 = 480 + 20 * int k" using klt by simp
    then show ?thesis using Suc.prems(1) by (simp add: toFormatHHmm_def add.assoc)
  qed
  have next_t: "lmin (plusMinutes t STEP_MIN) = D * 1440 + 480 + 20 * int (Suc k)"
    using Suc.prems(1) by (simp add: plusMinutes_def STEP_MIN_def SESSION_MIN_def BUFFER_MIN_def)
  have n: "n = 21 - Suc k" using Suc.hyps(2) by simp
  have k': "Suc k \<le> 21" using klt by simp
  note IH = Suc.hyps(1)[OF n next_t k']
  have upt: "[k..<21] = k # [Suc k..<21]" using klt by (simp add: upt_conv_Cons)
  show ?case
    apply (subst gridWalk.simps)
    apply (simp only: cond if_True Let_def IH upt list.map)
    apply (simp add: tm fmt SESSION_MIN_def)
    done
qed


subsection \<open>Strings\<close>

lemma isDigit_digitChar: "0 \<le> k \<Longrightarrow> k \<le> 9 \<Longrightarrow> isDigit (digitChar k)"
  by (simp add: isDigit_def digitChar_def)

lemma digitVal_digitChar: "0 \<le> k \<Longrightarrow> k \<le> 9 \<Longrightarrow> digitVal (digitChar k) = k"
  by (simp add: digitVal_def digitChar_def)

lemma isDigit_not_sep: "isDigit c \<Longrightarrow> c \<noteq> CHR '':'' \<and> c \<noteq> CHR ''-''"
  by (auto simp: isDigit_def)

lemma split_time_shape:
  assumes "isDigit a" "isDigit b" "isDigit c" "isDigit d"
  shows "split (CHR '':'') [a, b, CHR '':'', c, d] = [[a, b], [c, d]]"
  using assms[THEN isDigit_not_sep] by simp

lemma Number_two: "Number [a, b] = 10 * digitVal a + digitVal b"
  by (simp add: Number_def)

lemma timeFields_formatHHmm:
  assumes "0 \<le> t" and "t < 1440"
  shows "timeFields (formatHHmm t) = Some (t div 60, t mod 60)"
    and "matchesTime (formatHHmm t)"
proof -
  define h where "h = t div 60"
  define mi where "mi = t mod 60"
  have h: "0 \<le> h" "h \<le> 23" using assms by (simp_all add: h_def)
  have mi: "0 \<le> mi" "mi \<le> 59" by (simp_all add: mi_def)
  have r: "0 \<le> h div 10" "h div 10 \<le> 9" "0 \<le> h mod 10" "h mod 10 \<le> 9"
      "0 \<le> mi div 10" "mi div 10 \<le> 9" "0 \<le> mi mod 10" "mi mod 10 \<le> 9"
    using h mi by simp_all
  have dg: "isDigit (digitChar (h div 10))" "isDigit (digitChar (h mod 10))"
      "isDigit (digitChar (mi div 10))" "isDigit (digitChar (mi mod 10))"
    using r by (simp_all add: isDigit_digitChar)
  have f: "formatHHmm t = [digitChar (h div 10), digitChar (h mod 10), CHR '':'',
       digitChar (mi div 10), digitChar (mi mod 10)]"
    by (simp add: formatHHmm_def pad2_def h_def mi_def)
  have n1: "Number [digitChar (h div 10), digitChar (h mod 10)] = h"
    unfolding Number_two using r by (simp add: digitVal_digitChar)
  have n2: "Number [digitChar (mi div 10), digitChar (mi mod 10)] = mi"
    unfolding Number_two using r by (simp add: digitVal_digitChar)
  show "timeFields (formatHHmm t) = Some (t div 60, t mod 60)"
    using n1 n2 unfolding f timeFields_def split_time_shape[OF dg]
    by (simp add: h_def mi_def)
  show "matchesTime (formatHHmm t)"
    unfolding f using dg by simp
qed

lemma formatHHmm_inj:
  assumes "0 \<le> a" "a < 1440" "0 \<le> b" "b < 1440" and "formatHHmm a = formatHHmm b"
  shows "a = b"
proof -
  have "Some (a div 60, a mod 60) = Some (b div 60, b mod 60)"
    using timeFields_formatHHmm(1)[OF assms(1,2)] timeFields_formatHHmm(1)[OF assms(3,4)] assms(5)
    by simp
  then have "a div 60 = b div 60" "a mod 60 = b mod 60" by simp_all
  then show ?thesis by (metis div_mult_mod_eq)
qed

subsection \<open>The day of a calendar date\<close>

lemma isValid_fromObject_time:
  assumes "0 \<le> hh" "hh \<le> 23" "0 \<le> mm" "mm \<le> 59"
  shows "isValid (fromObject y m d hh mm) = isValid (fromObject y m d 8 0)"
  using assms by (simp add: fromObject_def)

lemma localInstant_in_day:
  assumes v: "isValid (fromObject y m d 8 0)" and t: "0 \<le> t" "t < 1440"
  shows "localInstant z y m d t
     = (daysFromCivil y m d * 1440 + t - offsetMin z (daysFromCivil y m d)) * 60 * 1000"
    and "isValid (fromObject y m d (t div 60) (t mod 60))"
    and "lmin (fromObject y m d (t div 60) (t mod 60)) = daysFromCivil y m d * 1440 + t"
proof -
  have r: "0 \<le> t div 60" "t div 60 \<le> 23" "0 \<le> t mod 60" "t mod 60 \<le> 59"
    using t by simp_all
  show v': "isValid (fromObject y m d (t div 60) (t mod 60))"
    using isValid_fromObject_time[OF r] v by simp
  show l: "lmin (fromObject y m d (t div 60) (t mod 60)) = daysFromCivil y m d * 1440 + t"
    using lmin_fromObject[OF v'] by simp
  show "localInstant z y m d t
     = (daysFromCivil y m d * 1440 + t - offsetMin z (daysFromCivil y m d)) * 60 * 1000"
    unfolding localInstant_def by (rule toMillis_in_day[OF l t])
qed

lemma set_gridCandidates: "t \<in> set gridCandidates \<Longrightarrow> 480 \<le> t \<and> t \<le> 880"
  unfolding gridCandidates_eq by auto

lemma sorted_gridCandidates: "sorted_wrt (<) gridCandidates"
  unfolding gridCandidates_eq by code_simp

lemma dayBounds:
  "fromObject y m d (fst DAY_START) (snd DAY_START) = fromObject y m d 8 0"
  "fromObject y m d (fst DAY_END) (snd DAY_END) = fromObject y m d 15 0"
  "localInstant z y m d dayStartMin = toMillis z (fromObject y m d 8 0)"
  "localInstant z y m d dayEndMin = toMillis z (fromObject y m d 15 0)"
  by (simp_all add: DAY_START_def DAY_END_def localInstant_def dayStartMin_def dayEndMin_def)

lemma list_ex_sort_key: "list_ex P (sort_key f xs) = list_ex P xs"
  by (simp add: list_ex_iff)

lemma getAvailability_walk:
  assumes "sid \<noteq> []" and "matchesDate date" and "dateFields date = Some (y, m, d)"
    and "isValid (fromObject y m d 8 0)"
    and "findUniqueService st sid = Some service" and "isActive service"
    and "durationMin service = SESSION_MIN"
  shows "getAvailability z st sid date =
     Times (gridWalk z
       (findSlotsOverlapping st sid (toMillis z (fromObject y m d 8 0)) (toMillis z (fromObject y m d 15 0)))
       (findBookedStarts st sid (toMillis z (fromObject y m d 8 0)) (toMillis z (fromObject y m d 15 0)))
       (fromObject y m d 15 0) [] (fromObject y m d 8 0))"
  using assms by (simp add: getAvailability_def dayBounds Let_def)

text \<open>What the availability handler returns for a calendar date.\<close>

lemma getAvailability_times:
  assumes "sid \<noteq> []" and "matchesDate date" and "dateFields date = Some (y, m, d)"
    and "isValid (fromObject y m d 8 0)"
    and "findUniqueService st sid = Some service" and "isActive service"
    and "durationMin service = SESSION_MIN"
  shows "getAvailability z st sid date = Times (map formatHHmm (availableStarts_spec z st sid y m d))"
proof -
  define D where "D = daysFromCivil y m d"
  define lo where "lo = toMillis z (fromObject y m d 8 0)"
  define hi where "hi = toMillis z (fromObject y m d 15 0)"
  let ?A = "availableStarts_spec z st sid y m d"
  have v: "isValid (fromObject y m d 8 0)" by fact
  have v15: "isValid (fromObject y m d 15 0)"
    using isValid_fromObject_time[of 15 0 y m d] v by simp
  have l8: "lmin (fromObject y m d 8 0) = D * 1440 + 480 + 20 * int 0"
    using lmin_fromObject[OF v] by (simp add: D_def)
  have l15: "lmin (fromObject y m d 15 0) = D * 1440 + 900"
    using lmin_fromObject[OF v15] by (simp add: D_def)
  have inst: "localInstant z y m d t = (D * 1440 + t - offsetMin z D) * 60 * 1000"
    if "t \<in> set gridCandidates" for t
    using localInstant_in_day(1)[OF v, of t z] set_gridCandidates[OF that] by (simp add: D_def)
  have walk: "gridWalk z (findSlotsOverlapping st sid lo hi) (findBookedStarts st sid lo hi)
       (fromObject y m d 15 0) [] (fromObject y m d 8 0) = map formatHHmm ?A"
    unfolding gridWalk_grid[OF l15 l8, simplified] availableStarts_spec_def Let_def dayBounds
      gridCandidates_eq[symmetric] lo_def[symmetric] hi_def[symmetric] append_Nil
    apply (rule arg_cong[where f = "map formatHHmm"])
    apply (rule filter_cong[OF refl])
    apply (simp add: inst findSlotsOverlapping_def findBookedStarts_def list_ex_iff SESSION_MIN_def)
    done
  show ?thesis
    unfolding getAvailability_walk[OF assms] using walk by (simp add: lo_def hi_def)
qed

text \<open>
  C3.  For an active service of 15 minutes and a calendar date, the availability handler
  answers with exactly the grid candidates of the day (08:00 up to but excluding 15:00, every
  20 minutes) that some fetched window contains from start to end (\<open>window.start \<le>
  candidateStart\<close> and \<open>window.end \<ge> candidateEnd\<close>, the end 15 minutes after the start)
  and whose start instant is not the start of a non-cancelled booking of the day, each written
  as HH:mm, in ascending order of the time of day and without duplicates.
\<close>

theorem getAvailability_spec:
  assumes "sid \<noteq> []" and "matchesDate date" and "dateFields date = Some (y, m, d)"
    and "isValid (fromObject y m d 8 0)"
    and "findUniqueService st sid = Some service" and "isActive service"
    and "durationMin service = SESSION_MIN"
  shows "getAvailability z st sid date = Times (map formatHHmm (availableStarts_spec z st sid y m d))
     \<and> sorted_wrt (<) (availableStarts_spec z st sid y m d)
     \<and> distinct (map formatHHmm (availableStarts_spec z st sid y m d))"
proof -
  let ?A = "availableStarts_spec z st sid y m d"
  have 1: "getAvailability z st sid date = Times (map formatHHmm ?A)"
    by (rule getAvailability_times[OF assms])
  have 2: "sorted_wrt (<) ?A"
    unfolding availableStarts_spec_def Let_def
    by (rule sorted_wrt_filter) (rule sorted_gridCandidates)
  have sub: "set ?A \<subseteq> set gridCandidates"
    unfolding availableStarts_spec_def Let_def by simp
  have "inj_on formatHHmm (set ?A)"
  proof (rule inj_onI)
    fix a b assume a: "a \<in> set ?A" and b: "b \<in> set ?A" and e: "formatHHmm a = formatHHmm b"
    have "480 \<le> a \<and> a \<le> 880" "480 \<le> b \<and> b \<le> 880"
      using a b sub set_gridCandidates by blast+
    then show "a = b" using formatHHmm_inj[OF _ _ _ _ e] by simp
  qed
  moreover have "distinct ?A"
    using 2 by (simp add: strict_sorted_iff)
  ultimately have 3: "distinct (map formatHHmm ?A)"
    by (simp add: distinct_map)
  show ?thesis using 1 2 3 by simp
qed

text \<open>The example of the specification: a window 09:00 to 12:00 and no bookings.\<close>

theorem getAvailability_spec_witness:
  "getAvailability winter exampleStore ''singing-15'' ''2026-01-15''
     = Times (map formatHHmm (availableStarts_spec winter exampleStore ''singing-15'' 2026 1 15))
   \<and> sorted_wrt (<) (availableStarts_spec winter exampleStore ''singing-15'' 2026 1 15)
   \<and> distinct (map formatHHmm (availableStarts_spec winter exampleStore ''singing-15'' 2026 1 15))
   \<and> map formatHHmm (availableStarts_spec winter exampleStore ''singing-15'' 2026 1 15)
     = [''09:00'', ''09:20'', ''09:40'', ''10:00'', ''10:20'', ''10:40'', ''11:00'', ''11:20'',
        ''11:40'']"
proof -
  have h1: "''singing-15'' \<noteq> []" by simp
  have h2: "matchesDate ''2026-01-15''" by code_simp
  have h3: "dateFields ''2026-01-15'' = Some (2026, 1, 15)" by code_simp
  have h4: "isValid (fromObject 2026 1 15 8 0)" by code_simp
  have h5: "findUniqueService exampleStore ''singing-15'' = Some singing" by code_simp
  have h6: "isActive singing" by code_simp
  have h7: "durationMin singing = SESSION_MIN" by code_simp
  have ex: "map formatHHmm (availableStarts_spec winter exampleStore ''singing-15'' 2026 1 15)
     = [''09:00'', ''09:20'', ''09:40'', ''10:00'', ''10:20'', ''10:40'', ''11:00'', ''11:20'',
        ''11:40'']"
    by code_simp
  show ?thesis
    using getAvailability_spec[OF h1 h2 h3 h4 h5 h6 h7, of winter] ex by simp
qed

subsection \<open>The transaction\<close>

lemma enumerate_map_snd:
  "enumerate n (map f xs) = map (\<lambda>p. (fst p, f (snd p))) (enumerate n xs)"
  by (induction xs arbitrary: n) simp_all

lemma createMany_sessionRows:
  "createMany st (map (sessionRow uid sid nt) startsUtc)
     = (length startsUtc, afterInsert st uid sid nt startsUtc)"
  by (simp add: createMany_def afterInsert_def insertedRows_def enumerate_map_snd
      o_def split_def)

lemma bookingTransaction_cases:
  "bookingTransaction fault st uid sid startsUtc nt =
     (if conflictingBookings st sid startsUtc \<noteq> []
      then Inr (TxConflicts (map selectConflict (conflictingBookings st sid startsUtc)), st)
      else (case fault of
          Some e \<Rightarrow> Inl e
        | None \<Rightarrow>
            Inr (TxCreated (length startsUtc)
                   (map selectCreated
                      (sort_key startAt
                         (filter (\<lambda>b. userId b = uid \<and> serviceId b = sid \<and> startAt b \<in> set startsUtc)
                            (bookings (afterInsert st uid sid nt startsUtc))))),
                 afterInsert st uid sid nt startsUtc)))"
proof -
  have rows: "map (\<lambda>s. \<lparr>userId = uid, serviceId = sid, startAt = s,
        endAt = s + SESSION_MIN * 60 * 1000, status = CONFIRMED, bnote = nt\<rparr>) startsUtc
      = map (sessionRow uid sid nt) startsUtc"
    by (simp add: sessionRow_def)
  show ?thesis
    unfolding bookingTransaction_def Let_def rows createMany_sessionRows
      conflictingBookings_def[symmetric]
    by (simp split: option.split)
qed

lemma postBookings_accepted:
  assumes "createBookingSchema b" and "user = Some uid" and "uid \<noteq> []"
    and "isValid (parseOsloDateTime (reqDate b) (reqStartTime b))"
    and "isAlignedToStep z (parseOsloDateTime (reqDate b) (reqStartTime b))"
    and "validateWithinBusinessHours z (parseOsloDateTime (reqDate b) (reqStartTime b)) (reqSessions b)
           = HoursOk"
    and "\<not> toMillis z (parseOsloDateTime (reqDate b) (reqStartTime b)) < now"
    and "findUniqueService st (reqServiceId b) = Some service" and "isActive service"
    and "durationMin service = SESSION_MIN"
    and "startsUtc = buildSessionStartsUtc z (parseOsloDateTime (reqDate b) (reqStartTime b)) (reqSessions b)"
    and "list_all (\<lambda>s. isSessionCoveredBySlots s (s + SESSION_MIN * 60 * 1000)
            (findSlotsOverlapping st (reqServiceId b) (hd startsUtc)
               (last startsUtc + SESSION_MIN * 60 * 1000))) startsUtc"
  shows "postBookings z now fault st user b =
     (case bookingTransaction fault st uid (reqServiceId b) startsUtc (reqNote b) of
        Inl e \<Rightarrow> (ServerError, st)
      | Inr (TxConflicts cs, st') \<Rightarrow> (Conflict cs, st')
      | Inr (TxCreated n bs, st') \<Rightarrow> (Booked n bs, st'))"
  using assms by (simp add: postBookings_def Let_def)

subsection \<open>Grid times in the commit pipeline\<close>

lemma parse_formatHHmm:
  assumes "dateFields date = Some (y, m, d)" and "0 \<le> t" and "t < 1440"
  shows "parseOsloDateTime date (formatHHmm t) = fromObject y m d (t div 60) (t mod 60)"
  by (simp add: parseOsloDateTime_def assms(1) timeFields_formatHHmm(1)[OF assms(2,3)])

lemma isAlignedToStep_time_of_day:
  "isAlignedToStep z dt = (480 \<le> lmin dt mod 1440 \<and> (lmin dt mod 1440 - 480) mod 20 = 0)"
proof -
  define D where "D = lmin dt div 1440"
  define t where "t = lmin dt mod 1440"
  have l: "lmin dt = D * 1440 + t" and t: "0 \<le> t" "t < 1440"
    by (simp_all add: D_def t_def)
  have a: "toMillis z dt = (D * 1440 + t - offsetMin z D) * 60 * 1000"
    by (rule toMillis_in_day[OF l t])
  have "lmin (setHM dt DAY_START) = D * 1440 + 480"
    by (simp add: DAY_START_def lmin_setHM D_def)
  then have b: "toMillis z (setHM dt DAY_START) = (D * 1440 + 480 - offsetMin z D) * 60 * 1000"
    by (rule toMillis_in_day) simp_all
  have "toMillis z dt - toMillis z (setHM dt DAY_START) = (t - 480) * (60 * 1000)"
    unfolding a b by (simp add: algebra_simps)
  then have "diffMinutes z dt (setHM dt DAY_START) = t - 480"
    by (simp add: diffMinutes_def)
  then show ?thesis
    by (simp add: isAlignedToStep_def Let_def STEP_MIN_def SESSION_MIN_def BUFFER_MIN_def t_def)
qed

lemma gridCandidates_step: "t \<in> set gridCandidates \<Longrightarrow> (t - 480) mod 20 = 0"
  unfolding gridCandidates_eq by auto

lemma buildSessionStartsUtc_one: "buildSessionStartsUtc z dt 1 = [toMillis z dt]"
  by (simp add: buildSessionStartsUtc_def plusMinutes_def)

text \<open>A grid candidate of a calendar date passes the first three checks of the commit.\<close>

lemma grid_candidate_checks:
  assumes df: "dateFields date = Some (y, m, d)" and v: "isValid (fromObject y m d 8 0)"
    and t: "t \<in> set gridCandidates"
  defines "start \<equiv> parseOsloDateTime date (formatHHmm t)"
  shows "isValid start" and "isAlignedToStep z start"
    and "validateWithinBusinessHours z start 1 = HoursOk"
    and "toMillis z start = localInstant z y m d t"
    and "matchesTime (formatHHmm t)"
proof -
  have r: "0 \<le> t" "t < 1440" "480 \<le> t" "t \<le> 880" using set_gridCandidates[OF t] by simp_all
  have s: "start = fromObject y m d (t div 60) (t mod 60)"
    unfolding start_def by (rule parse_formatHHmm[OF df r(1,2)])
  show "isValid start" unfolding s by (rule localInstant_in_day(2)[OF v r(1,2)])
  have l: "lmin start = daysFromCivil y m d * 1440 + t"
    unfolding s by (rule localInstant_in_day(3)[OF v r(1,2)])
  have tod: "lmin start mod 1440 = t" unfolding l using r by simp
  show "isAlignedToStep z start"
    unfolding isAlignedToStep_time_of_day tod using r gridCandidates_step[OF t] by simp
  show "validateWithinBusinessHours z start 1 = HoursOk"
    using validateWithinBusinessHours_time_of_day[of 1 z start] r by (simp add: tod)
  show "toMillis z start = localInstant z y m d t"
    unfolding s localInstant_def by simp
  show "matchesTime (formatHHmm t)" by (rule timeFields_formatHHmm(2)[OF r(1,2)])
qed

subsection \<open>From an availability answer to a commit\<close>

lemma getAvailability_TimesD:
  assumes "getAvailability z st sid date = Times ts"
  shows "\<exists>service y m d. sid \<noteq> [] \<and> matchesDate date \<and> dateFields date = Some (y, m, d)
     \<and> isValid (fromObject y m d 8 0) \<and> findUniqueService st sid = Some service
     \<and> isActive service \<and> durationMin service = SESSION_MIN"
  using assms
  by (auto simp: getAvailability_def Let_def dayBounds split: if_splits option.splits)

lemma availableStarts_specD:
  assumes "t \<in> set (availableStarts_spec z st sid y m d)"
  shows "t \<in> set gridCandidates"
    and "\<exists>w \<in> set (slots st). slotServiceId w = sid
           \<and> slotStartAt w \<le> localInstant z y m d t
           \<and> slotEndAt w \<ge> localInstant z y m d t + SESSION_MIN * 60 * 1000"
    and "\<forall>b \<in> set (bookings st). serviceId b = sid \<and> status b \<noteq> CANCELLED
           \<and> localInstant z y m d dayStartMin \<le> startAt b \<and> startAt b < localInstant z y m d dayEndMin
           \<longrightarrow> startAt b \<noteq> localInstant z y m d t"
proof -
  show "t \<in> set gridCandidates"
    using assms by (simp add: availableStarts_spec_def Let_def)
  show "\<exists>w \<in> set (slots st). slotServiceId w = sid
           \<and> slotStartAt w \<le> localInstant z y m d t
           \<and> slotEndAt w \<ge> localInstant z y m d t + SESSION_MIN * 60 * 1000"
    using assms by (auto simp: availableStarts_spec_def Let_def)
  have "localInstant z y m d t \<notin> startAt ` set (filter (\<lambda>b. serviceId b = sid \<and> status b \<noteq> CANCELLED
          \<and> localInstant z y m d dayStartMin \<le> startAt b
          \<and> startAt b < localInstant z y m d dayEndMin) (bookings st))"
    using assms by (simp add: availableStarts_spec_def Let_def)
  then show "\<forall>b \<in> set (bookings st). serviceId b = sid \<and> status b \<noteq> CANCELLED
           \<and> localInstant z y m d dayStartMin \<le> startAt b \<and> startAt b < localInstant z y m d dayEndMin
           \<longrightarrow> startAt b \<noteq> localInstant z y m d t"
    by force
qed

lemma grid_instant_in_day:
  assumes v: "isValid (fromObject y m d 8 0)" and t: "t \<in> set gridCandidates"
  shows "localInstant z y m d dayStartMin \<le> localInstant z y m d t"
    and "localInstant z y m d t < localInstant z y m d dayEndMin"
proof -
  have r: "480 \<le> t" "t \<le> 880" using set_gridCandidates[OF t] by simp_all
  have a: "localInstant z y m d t
      = (daysFromCivil y m d * 1440 + t - offsetMin z (daysFromCivil y m d)) * 60 * 1000"
    by (rule localInstant_in_day(1)[OF v]) (use r in simp_all)
  have b: "localInstant z y m d dayStartMin
      = (daysFromCivil y m d * 1440 + 480 - offsetMin z (daysFromCivil y m d)) * 60 * 1000"
    using localInstant_in_day(1)[OF v, of 480 z] by (simp add: dayStartMin_def DAY_START_def)
  have c: "localInstant z y m d dayEndMin
      = (daysFromCivil y m d * 1440 + 900 - offsetMin z (daysFromCivil y m d)) * 60 * 1000"
    using localInstant_in_day(1)[OF v, of 900 z] by (simp add: dayEndMin_def DAY_END_def)
  show "localInstant z y m d dayStartMin \<le> localInstant z y m d t"
    unfolding a b using r by simp
  show "localInstant z y m d t < localInstant z y m d dayEndMin"
    unfolding a c using r by simp
qed

text \<open>
  A time of day the availability handler returned, committed as a single session on the same
  store, passes every check unless its instant has passed by then.
\<close>

lemma commit_available_time:
  assumes avail: "getAvailability z st sid date = Times ts" and mem: "time \<in> set ts"
    and now: "now \<le> toMillis z (parseOsloDateTime date time)"
    and nt: "(case nt of None \<Rightarrow> True | Some n \<Rightarrow> length n \<le> 500)"
    and uid: "uid \<noteq> []"
  defines "inst \<equiv> toMillis z (parseOsloDateTime date time)"
  defines "b \<equiv> \<lparr>reqServiceId = sid, reqDate = date, reqStartTime = time, reqSessions = 1,
                 reqNote = nt\<rparr>"
  shows "postBookings z now None st (Some uid) b
     = (Booked 1
          (map selectCreated
             (sort_key startAt
                (filter (\<lambda>r. userId r = uid \<and> serviceId r = sid \<and> startAt r \<in> set [inst])
                   (bookings (afterInsert st uid sid nt [inst]))))),
        afterInsert st uid sid nt [inst])"
proof -
  obtain service y m d where h: "sid \<noteq> []" "matchesDate date" "dateFields date = Some (y, m, d)"
      "isValid (fromObject y m d 8 0)" "findUniqueService st sid = Some service"
      "isActive service" "durationMin service = SESSION_MIN"
    using getAvailability_TimesD[OF avail] by blast
  have "ts = map formatHHmm (availableStarts_spec z st sid y m d)"
    using getAvailability_times[OF h, of z] avail by simp
  then obtain t where t: "t \<in> set (availableStarts_spec z st sid y m d)" and time: "time = formatHHmm t"
    using mem by auto
  note g = availableStarts_specD[OF t]
  note c = grid_candidate_checks[OF h(3,4) g(1), folded time]
  have inst: "inst = localInstant z y m d t" unfolding inst_def by (rule c(4))
  have schema: "createBookingSchema b"
    using h(1,2) c(5) nt by (simp add: createBookingSchema_def b_def Suc_le_eq)
  have starts: "[inst] = buildSessionStartsUtc z (parseOsloDateTime (reqDate b) (reqStartTime b)) (reqSessions b)"
    by (simp add: b_def buildSessionStartsUtc_one inst_def)
  obtain w where w: "w \<in> set (slots st)" "slotServiceId w = sid" "slotStartAt w \<le> inst"
      "slotEndAt w \<ge> inst + SESSION_MIN * 60 * 1000"
    using g(2) inst by auto
  have cov: "list_all (\<lambda>s. isSessionCoveredBySlots s (s + SESSION_MIN * 60 * 1000)
            (findSlotsOverlapping st (reqServiceId b) (hd [inst])
               (last [inst] + SESSION_MIN * 60 * 1000))) [inst]"
    using w by (auto simp: isSessionCoveredBySlots_def findSlotsOverlapping_def list_ex_iff b_def
        SESSION_MIN_def intro!: bexI[of _ w])
  have nocon: "conflictingBookings st sid [inst] = []"
    using g(3) grid_instant_in_day[OF h(4) g(1), of z]
    by (auto simp: conflictingBookings_def filter_empty_conv inst)
  have "postBookings z now None st (Some uid) b =
     (case bookingTransaction None st uid (reqServiceId b) [inst] (reqNote b) of
        Inl e \<Rightarrow> (ServerError, st)
      | Inr (TxConflicts cs, st') \<Rightarrow> (Conflict cs, st')
      | Inr (TxCreated n bs, st') \<Rightarrow> (Booked n bs, st'))"
    by (rule postBookings_accepted[OF schema refl uid _ _ _ _ _ h(6,7) starts cov])
       (use c now h(5) in \<open>simp_all add: b_def inst_def\<close>)
  then show ?thesis
    by (simp add: bookingTransaction_cases nocon b_def)
qed

lemma afterInsert_one:
  "afterInsert st uid sid nt [s]
     = st\<lparr>bookings := bookings st @ [withId (nextId st) (sessionRow uid sid nt s)],
          nextId := nextId st + 1\<rparr>"
  by (simp add: afterInsert_def insertedRows_def)

lemma withId_fields:
  "userId (withId n r) = userId r" "serviceId (withId n r) = serviceId r"
  "startAt (withId n r) = startAt r" "endAt (withId n r) = endAt r"
  "status (withId n r) = status r" "bnote (withId n r) = bnote r" "bookingId (withId n r) = n"
  by (simp_all add: withId_def)

lemma sessionRow_fields:
  "userId (sessionRow uid sid nt s) = uid" "serviceId (sessionRow uid sid nt s) = sid"
  "startAt (sessionRow uid sid nt s) = s" "endAt (sessionRow uid sid nt s) = s + SESSION_MIN * 60 * 1000"
  "status (sessionRow uid sid nt s) = CONFIRMED" "bnote (sessionRow uid sid nt s) = nt"
  by (simp_all add: sessionRow_def)

text \<open>
  C2, amended.  Take a time of day that the availability handler returned for a service and a
  date, and commit it at once, on the same store, as a single session of an authenticated
  user, the storage layer raising nothing.  If the instant of that time of day on that date
  is not before the current instant, the commit succeeds: it inserts exactly one booking,
  whose start instant is that instant, and reports one created row; the answer lists that
  booking, and every booking it lists starts at that instant.
\<close>

theorem availability_roundtrip:
  assumes "getAvailability z st sid date = Times ts" and "time \<in> set ts"
    and "now \<le> toMillis z (parseOsloDateTime date time)"
    and "(case nt of None \<Rightarrow> True | Some n \<Rightarrow> length n \<le> 500)"
    and "uid \<noteq> []"
  shows "\<exists>rows.
     postBookings z now None st (Some uid)
       \<lparr>reqServiceId = sid, reqDate = date, reqStartTime = time, reqSessions = 1, reqNote = nt\<rparr>
     = (Booked 1 rows,
        st\<lparr>bookings := bookings st @
              [withId (nextId st)
                 (sessionRow uid sid nt (toMillis z (parseOsloDateTime date time)))],
           nextId := nextId st + 1\<rparr>)
     \<and> selectCreated (withId (nextId st)
           (sessionRow uid sid nt (toMillis z (parseOsloDateTime date time)))) \<in> set rows
     \<and> (\<forall>r \<in> set rows. createdStartAt r = toMillis z (parseOsloDateTime date time))"
proof -
  define inst where "inst = toMillis z (parseOsloDateTime date time)"
  define rows where "rows = map selectCreated
             (sort_key startAt
                (filter (\<lambda>r. userId r = uid \<and> serviceId r = sid \<and> startAt r \<in> set [inst])
                   (bookings (afterInsert st uid sid nt [inst]))))"
  have run: "postBookings z now None st (Some uid)
       \<lparr>reqServiceId = sid, reqDate = date, reqStartTime = time, reqSessions = 1, reqNote = nt\<rparr>
     = (Booked 1 rows, afterInsert st uid sid nt [inst])"
    unfolding rows_def inst_def by (rule commit_available_time[OF assms])
  have new: "selectCreated (withId (nextId st) (sessionRow uid sid nt inst)) \<in> set rows"
    unfolding rows_def by (simp add: afterInsert_one withId_fields sessionRow_fields)
  have all: "\<forall>r \<in> set rows. createdStartAt r = inst"
    unfolding rows_def by (auto simp: selectCreated_def)
  show ?thesis
    using run new all unfolding afterInsert_one inst_def by blast
qed

text \<open>The 09:00 slot of the example, committed while it lies in the future.\<close>

theorem availability_roundtrip_witness:
  "getAvailability winter exampleStore ''singing-15'' ''2026-01-15''
     = Times [''09:00'', ''09:20'', ''09:40'', ''10:00'', ''10:20'', ''10:40'', ''11:00'',
              ''11:20'', ''11:40'']
   \<and> toMillis winter (parseOsloDateTime ''2026-01-15'' ''09:00'') = 1768464000000
   \<and> (\<exists>rows.
     postBookings winter 1768400000000 None exampleStore (Some ''user-1'')
       \<lparr>reqServiceId = ''singing-15'', reqDate = ''2026-01-15'', reqStartTime = ''09:00'',
        reqSessions = 1, reqNote = None\<rparr>
     = (Booked 1 rows,
        exampleStore\<lparr>bookings := bookings exampleStore @
              [withId (nextId exampleStore)
                 (sessionRow ''user-1'' ''singing-15'' None 1768464000000)],
           nextId := nextId exampleStore + 1\<rparr>)
     \<and> selectCreated (withId (nextId exampleStore)
           (sessionRow ''user-1'' ''singing-15'' None 1768464000000)) \<in> set rows
     \<and> (\<forall>r \<in> set rows. createdStartAt r = 1768464000000))"
proof -
  have h1: "getAvailability winter exampleStore ''singing-15'' ''2026-01-15''
     = Times [''09:00'', ''09:20'', ''09:40'', ''10:00'', ''10:20'', ''10:40'', ''11:00'',
              ''11:20'', ''11:40'']"
    by code_simp
  have h2: "''09:00'' \<in> set [''09:00'', ''09:20'', ''09:40'', ''10:00'', ''10:20'', ''10:40'',
      ''11:00'', ''11:20'', ''11:40'']"
    by simp
  have i: "toMillis winter (parseOsloDateTime ''2026-01-15'' ''09:00'') = 1768464000000"
    by code_simp
  have h3: "1768400000000 \<le> toMillis winter (parseOsloDateTime ''2026-01-15'' ''09:00'')"
    unfolding i by simp
  have h4: "(case None :: string option of None \<Rightarrow> True | Some n \<Rightarrow> length n \<le> 500)"
    by simp
  have h5: "''user-1'' \<noteq> []" by simp
  show ?thesis
    using availability_roundtrip[OF h1 h2 h3 h4 h5] h1 i by simp
qed

text \<open>
  The claim as stated fails for a date in the past: the handler still returns the open
  slots of 2026-01-15 a year later, and the commit of the first of them is rejected.
\<close>

theorem availability_roundtrip_counterexample:
  "getAvailability winter exampleStore ''singing-15'' ''2026-01-15''
     = Times [''09:00'', ''09:20'', ''09:40'', ''10:00'', ''10:20'', ''10:40'', ''11:00'',
              ''11:20'', ''11:40'']
   \<and> postBookings winter 1800000000000 None exampleStore (Some ''user-1'')
       \<lparr>reqServiceId = ''singing-15'', reqDate = ''2026-01-15'', reqStartTime = ''09:00'',
        reqSessions = 1, reqNote = None\<rparr>
     = (Rejected InThePast, exampleStore)"
  by code_simp

subsection \<open>The validation steps\<close>




subsection \<open>The order of the validation steps\<close>

lemma sessionsCovered_code:
  "list_all (\<lambda>s. isSessionCoveredBySlots s (s + SESSION_MIN * 60 * 1000)
        (findSlotsOverlapping st sid (hd startsUtc) (last startsUtc + SESSION_MIN * 60 * 1000)))
      startsUtc = sessionsCovered st sid startsUtc"
  by (auto simp: sessionsCovered_def isSessionCoveredBySlots_def findSlotsOverlapping_def
      list_all_iff list_ex_iff)

lemma bookingTransaction_not_rejected:
  "(case bookingTransaction fault st uid sid startsUtc nt of
        Inl e \<Rightarrow> (ServerError, st)
      | Inr (TxConflicts cs, st') \<Rightarrow> (Conflict cs, st')
      | Inr (TxCreated n bs, st') \<Rightarrow> (Booked n bs, st')) = (resp, st'') \<Longrightarrow> resp \<noteq> Rejected r"
  by (auto simp: bookingTransaction_cases split: if_splits option.splits)

lemma postBookings_pipeline:
  assumes "createBookingSchema b" and "uid \<noteq> []"
  shows "(case firstFailure (pipeline_spec z now st b) of
       Some r \<Rightarrow> postBookings z now fault st (Some uid) b = (Rejected r, st)
     | None \<Rightarrow>
         postBookings z now fault st (Some uid) b =
           (case bookingTransaction fault st uid (reqServiceId b)
                   (buildSessionStartsUtc z (parseOsloDateTime (reqDate b) (reqStartTime b))
                      (reqSessions b)) (reqNote b) of
              Inl e \<Rightarrow> (ServerError, st)
            | Inr (TxConflicts cs, st') \<Rightarrow> (Conflict cs, st')
            | Inr (TxCreated n bs, st') \<Rightarrow> (Booked n bs, st')))"
  using assms unfolding postBookings_def Let_def sessionsCovered_code
  by (simp add: pipeline_spec_def serviceFailure_def Let_def
       split: hours_check.split option.split)


text \<open>
  A date-time with fields in range that reads a time of the skipped hour of a clock change
  passes the validity test; it lies before 08:00 and is answered as off the grid.
\<close>

lemma clock_change_gap_answer:
  assumes "createBookingSchema b" and "uid \<noteq> []"
    and "isValid (parseOsloDateTime (reqDate b) (reqStartTime b))"
    and "inClockChangeGap z (parseOsloDateTime (reqDate b) (reqStartTime b))"
  shows "postBookings z now fault st (Some uid) b = (Rejected NotAligned, st)"
proof -
  have "\<not> isAlignedToStep z (parseOsloDateTime (reqDate b) (reqStartTime b))"
    using assms(4) unfolding isAlignedToStep_time_of_day inClockChangeGap_def by simp
  then show ?thesis
    using assms(1,2,3) by (simp add: postBookings_def Let_def)
qed

text \<open>The grid step leaves nothing for the before-opening reason of the next step.\<close>

lemma aligned_not_before_opening:
  assumes "isAlignedToStep z dt"
  shows "validateWithinBusinessHours z dt sessions \<noteq> BeforeOpening"
proof -
  have "480 \<le> lmin dt mod 1440"
    using assms unfolding isAlignedToStep_time_of_day by simp
  then have "lmin dt div 1440 * 1440 + 480 \<le> lmin dt"
    by (metis add_left_mono div_mult_mod_eq)
  then have "\<not> toMillis z dt < toMillis z (setHM dt DAY_START)"
    by (simp add: toMillis_def lmin_setHM DAY_START_def)
  then show ?thesis
    by (simp add: validateWithinBusinessHours_def Let_def)
qed

text \<open>
  C9, amended.  Once the schema has accepted the body of an authenticated request, the commit
  answers with the rejection of the first step that fails, in the order invalid date-time
  (a field out of range for the calendar or the clock), not on the grid, outside the opening
  hours (before opening and past closing being told apart), start before the current instant,
  service missing, inactive or not of 15 minutes, not within availability; it leaves the
  store as it was.  When no step fails the answer is no rejection.  The messages of the
  rejections are pairwise different.  A local time that does not exist because it falls
  into the skipped hour of a clock change is not an invalid date-time for the first step:
  with its fields in range it is answered by the grid step.
\<close>

theorem validation_order:
  assumes "createBookingSchema b" and "uid \<noteq> []"
  shows "(case firstFailure (pipeline_spec z now st b) of
       Some r \<Rightarrow> postBookings z now fault st (Some uid) b = (Rejected r, st)
     | None \<Rightarrow> (\<forall>r. fst (postBookings z now fault st (Some uid) b) \<noteq> Rejected r))
     \<and> distinct (map rejectMessage
          [InvalidDateTime, NotAligned, OutsideHours BeforeOpening, OutsideHours ExceedsClosing,
           InThePast, ServiceNotFound, WrongDuration, NotWithinAvailability])
     \<and> (isValid (parseOsloDateTime (reqDate b) (reqStartTime b))
          \<and> inClockChangeGap z (parseOsloDateTime (reqDate b) (reqStartTime b))
        \<longrightarrow> postBookings z now fault st (Some uid) b = (Rejected NotAligned, st))"
proof -
  have 1: "(case firstFailure (pipeline_spec z now st b) of
       Some r \<Rightarrow> postBookings z now fault st (Some uid) b = (Rejected r, st)
     | None \<Rightarrow> (\<forall>r. fst (postBookings z now fault st (Some uid) b) \<noteq> Rejected r))"
  proof (cases "firstFailure (pipeline_spec z now st b)")
    case None
    then have "postBookings z now fault st (Some uid) b =
           (case bookingTransaction fault st uid (reqServiceId b)
                   (buildSessionStartsUtc z (parseOsloDateTime (reqDate b) (reqStartTime b))
                      (reqSessions b)) (reqNote b) of
              Inl e \<Rightarrow> (ServerError, st)
            | Inr (TxConflicts cs, st') \<Rightarrow> (Conflict cs, st')
            | Inr (TxCreated n bs, st') \<Rightarrow> (Booked n bs, st'))"
      using postBookings_pipeline[OF assms, where z = z and now = now and st = st and fault = fault] by simp
    then have "fst (postBookings z now fault st (Some uid) b) \<noteq> Rejected r" for r
      using bookingTransaction_not_rejected[where fault = fault and st = st and uid = uid
          and resp = "fst (postBookings z now fault st (Some uid) b)"
          and st'' = "snd (postBookings z now fault st (Some uid) b)" and r = r]
      by simp
    then show ?thesis using None by simp
  next
    case (Some r)
    then show ?thesis
      using postBookings_pipeline[OF assms, where z = z and now = now and st = st and fault = fault] by simp
  qed
  have 2: "distinct (map rejectMessage
          [InvalidDateTime, NotAligned, OutsideHours BeforeOpening, OutsideHours ExceedsClosing,
           InThePast, ServiceNotFound, WrongDuration, NotWithinAvailability])"
    by simp
  have 3: "postBookings z now fault st (Some uid) b = (Rejected NotAligned, st)"
    if "isValid (parseOsloDateTime (reqDate b) (reqStartTime b))"
      and "inClockChangeGap z (parseOsloDateTime (reqDate b) (reqStartTime b))"
    by (rule clock_change_gap_answer[OF assms that])
  show ?thesis using 1 2 3 by blast
qed

text \<open>
  A request that fails five steps at once (off the grid, past closing, in the past, unknown
  service, outside every window) is answered by the first of them; a request for 02:40 on
  the day summer time begins is answered by the grid step.
\<close>

theorem validation_order_witness:
  "createBookingSchema
     \<lparr>reqServiceId = ''piano-15'', reqDate = ''2026-01-15'', reqStartTime = ''14:50'',
      reqSessions = 30, reqNote = None\<rparr>
   \<and> pipeline_spec winter 1900000000000 exampleStore
       \<lparr>reqServiceId = ''piano-15'', reqDate = ''2026-01-15'', reqStartTime = ''14:50'',
        reqSessions = 30, reqNote = None\<rparr>
     = [None, Some NotAligned, Some (OutsideHours ExceedsClosing), Some InThePast,
        Some ServiceNotFound, Some NotWithinAvailability]
   \<and> postBookings winter 1900000000000 None exampleStore (Some ''user-1'')
       \<lparr>reqServiceId = ''piano-15'', reqDate = ''2026-01-15'', reqStartTime = ''14:50'',
        reqSessions = 30, reqNote = None\<rparr>
     = (Rejected NotAligned, exampleStore)
   \<and> isValid (parseOsloDateTime ''2026-03-29'' ''02:40'')
   \<and> inClockChangeGap oslo2026 (parseOsloDateTime ''2026-03-29'' ''02:40'')
   \<and> postBookings oslo2026 0 None exampleStore (Some ''user-1'')
       \<lparr>reqServiceId = ''singing-15'', reqDate = ''2026-03-29'', reqStartTime = ''02:40'',
        reqSessions = 1, reqNote = None\<rparr>
     = (Rejected NotAligned, exampleStore)"
proof -
  have h: "createBookingSchema
     \<lparr>reqServiceId = ''piano-15'', reqDate = ''2026-01-15'', reqStartTime = ''14:50'',
      reqSessions = 30, reqNote = None\<rparr>"
    by code_simp
  have p: "pipeline_spec winter 1900000000000 exampleStore
       \<lparr>reqServiceId = ''piano-15'', reqDate = ''2026-01-15'', reqStartTime = ''14:50'',
        reqSessions = 30, reqNote = None\<rparr>
     = [None, Some NotAligned, Some (OutsideHours ExceedsClosing), Some InThePast,
        Some ServiceNotFound, Some NotWithinAvailability]"
    by code_simp
  have u: "''user-1'' \<noteq> []" by simp
  have a: "postBookings winter 1900000000000 None exampleStore (Some ''user-1'')
       \<lparr>reqServiceId = ''piano-15'', reqDate = ''2026-01-15'', reqStartTime = ''14:50'',
        reqSessions = 30, reqNote = None\<rparr>
     = (Rejected NotAligned, exampleStore)"
    using validation_order[OF h u, where z = winter and now = 1900000000000 and st = exampleStore
        and fault = None]
    unfolding p by simp
  have g: "createBookingSchema
     \<lparr>reqServiceId = ''singing-15'', reqDate = ''2026-03-29'', reqStartTime = ''02:40'',
      reqSessions = 1, reqNote = None\<rparr>"
    by code_simp
  have v: "isValid (parseOsloDateTime ''2026-03-29'' ''02:40'')" by code_simp
  have c: "inClockChangeGap oslo2026 (parseOsloDateTime ''2026-03-29'' ''02:40'')" by code_simp
  have b: "postBookings oslo2026 0 None exampleStore (Some ''user-1'')
       \<lparr>reqServiceId = ''singing-15'', reqDate = ''2026-03-29'', reqStartTime = ''02:40'',
        reqSessions = 1, reqNote = None\<rparr>
     = (Rejected NotAligned, exampleStore)"
    using validation_order[OF g u, where z = oslo2026 and now = 0 and st = exampleStore
        and fault = None] v c
    by simp
  show ?thesis using h p a v c b by simp
qed

text \<open>
  The claim as stated fails: 02:20 on 2026-03-29 does not exist on the clock of the zone, yet
  the commit does not answer with the invalid date-time rejection of the first step; the
  date-time passes the validity test and the answer is that of the grid step.
\<close>

theorem nonexistent_time_not_invalid_counterexample:
  "inClockChangeGap oslo2026 (parseOsloDateTime ''2026-03-29'' ''02:20'')
   \<and> isValid (parseOsloDateTime ''2026-03-29'' ''02:20'')
   \<and> postBookings oslo2026 0 None exampleStore (Some ''user-1'')
       \<lparr>reqServiceId = ''singing-15'', reqDate = ''2026-03-29'', reqStartTime = ''02:20'',
        reqSessions = 1, reqNote = None\<rparr>
     = (Rejected NotAligned, exampleStore)
   \<and> rejectMessage NotAligned \<noteq> rejectMessage InvalidDateTime"
  by code_simp

subsection \<open>What a commit does to the store\<close>

text \<open>Once the opening-hours check has passed, the session starts are 20 minutes apart.\<close>

lemma buildSessionStartsUtc_steps:
  assumes ok: "validateWithinBusinessHours z start sessions = HoursOk" and s: "1 \<le> sessions"
  shows "buildSessionStartsUtc z start sessions
     = map (\<lambda>i. toMillis z start + int i * 20 * 60 * 1000) [0..<nat sessions]"
proof -
  define D where "D = lmin start div 1440"
  define t where "t = lmin start mod 1440"
  have l: "lmin start = D * 1440 + t" and t: "0 \<le> t" "t < 1440"
    by (simp_all add: D_def t_def)
  have b: "480 \<le> t" "t + (sessions - 1) * 20 + 15 \<le> 900"
    using validateWithinBusinessHours_time_of_day[OF s, of z start] ok by (simp_all add: t_def)
  have a: "toMillis z start = (D * 1440 + t - offsetMin z D) * 60 * 1000"
    by (rule toMillis_in_day[OF l t])
  have "toMillis z (plusMinutes start (int i * STEP_MIN)) = toMillis z start + int i * 20 * 60 * 1000"
    if "i < nat sessions" for i
  proof -
    have i: "int i \<le> sessions - 1" using that by simp
    have "lmin (plusMinutes start (int i * STEP_MIN)) = D * 1440 + (t + int i * 20)"
      by (simp add: plusMinutes_def STEP_MIN_def SESSION_MIN_def BUFFER_MIN_def l)
    then have "toMillis z (plusMinutes start (int i * STEP_MIN))
        = (D * 1440 + (t + int i * 20) - offsetMin z D) * 60 * 1000"
      by (rule toMillis_in_day) (use t b i in simp_all)
    then show ?thesis unfolding a by (simp add: algebra_simps)
  qed
  then show ?thesis
    by (simp add: buildSessionStartsUtc_def)
qed

lemma distinct_session_starts:
  assumes "validateWithinBusinessHours z start sessions = HoursOk" and "1 \<le> sessions"
  shows "distinct (buildSessionStartsUtc z start sessions)"
  unfolding buildSessionStartsUtc_steps[OF assms]
  by (simp add: distinct_map inj_on_def)

lemma length_buildSessionStartsUtc: "length (buildSessionStartsUtc z start sessions) = nat sessions"
  by (simp add: buildSessionStartsUtc_def)

text \<open>
  Every run of the handler either leaves the store as it was or, having found no conflict,
  appends the rows of all sessions.
\<close>

lemma postBookings_store:
  assumes "postBookings z now fault st user b = (resp, st')"
  defines "startsUtc \<equiv> buildSessionStartsUtc z (parseOsloDateTime (reqDate b) (reqStartTime b))
                          (reqSessions b)"
  shows "(st' = st \<and> (\<forall>n rows. resp \<noteq> Booked n rows))
     \<or> (\<exists>uid rows. user = Some uid \<and> resp = Booked (length startsUtc) rows
           \<and> fault = None
           \<and> 1 \<le> reqSessions b
           \<and> validateWithinBusinessHours z (parseOsloDateTime (reqDate b) (reqStartTime b))
                (reqSessions b) = HoursOk
           \<and> conflictingBookings st (reqServiceId b) startsUtc = []
           \<and> st' = afterInsert st uid (reqServiceId b) (reqNote b) startsUtc)"
proof (cases "createBookingSchema b \<and> user \<noteq> None \<and> user \<noteq> Some []
    \<and> firstFailure (pipeline_spec z now st b) = None")
  case True
  then obtain uid where u: "user = Some uid" and ne: "uid \<noteq> []" by auto
  have sch: "createBookingSchema b" using True by simp
  have s1: "1 \<le> reqSessions b" using sch by (simp add: createBookingSchema_def)
  have ok: "validateWithinBusinessHours z (parseOsloDateTime (reqDate b) (reqStartTime b))
                (reqSessions b) = HoursOk"
    using True by (auto simp: pipeline_spec_def Let_def split: if_splits hours_check.splits)
  have "postBookings z now fault st user b =
           (case bookingTransaction fault st uid (reqServiceId b) startsUtc (reqNote b) of
              Inl e \<Rightarrow> (ServerError, st)
            | Inr (TxConflicts cs, st') \<Rightarrow> (Conflict cs, st')
            | Inr (TxCreated n bs, st') \<Rightarrow> (Booked n bs, st'))"
    using postBookings_pipeline[OF sch ne, where z = z and now = now and st = st and fault = fault]
      True u
    by (simp add: startsUtc_def)
  then show ?thesis
    using assms(1) u s1 ok
    by (auto simp: bookingTransaction_cases split: if_splits option.splits)
next
  case False
  then consider "\<not> createBookingSchema b" | "createBookingSchema b" "user = None"
    | "createBookingSchema b" "user = Some []"
    | r uid where "createBookingSchema b" "user = Some uid" "uid \<noteq> []"
        "firstFailure (pipeline_spec z now st b) = Some r"
    by (cases user) auto
  then show ?thesis
  proof cases
    case 1
    then show ?thesis using assms(1) by (auto simp: postBookings_def)
  next
    case 2
    then show ?thesis using assms(1) by (auto simp: postBookings_def)
  next
    case 3
    then show ?thesis using assms(1) by (auto simp: postBookings_def)
  next
    case 4
    then show ?thesis
      using postBookings_pipeline[OF 4(1,3), where z = z and now = now and st = st and fault = fault]
        assms(1)
      by auto
  qed
qed

lemma insertedRows_facts:
  "map startAt (insertedRows uid sid nt first startsUtc) = startsUtc"
  "length (insertedRows uid sid nt first startsUtc) = length startsUtc"
  "r \<in> set (insertedRows uid sid nt first startsUtc) \<Longrightarrow>
     userId r = uid \<and> serviceId r = sid \<and> bnote r = nt \<and> status r = CONFIRMED
     \<and> endAt r = startAt r + SESSION_MIN * 60 * 1000"
proof -
  have e: "map snd (enumerate 0 startsUtc) = startsUtc" by simp
  show "map startAt (insertedRows uid sid nt first startsUtc) = startsUtc"
    by (subst (2) e[symmetric])
       (simp add: insertedRows_def withId_fields sessionRow_fields split_def o_def del: map_snd_enumerate)
  show "length (insertedRows uid sid nt first startsUtc) = length startsUtc"
    by (simp add: insertedRows_def)
  show "r \<in> set (insertedRows uid sid nt first startsUtc) \<Longrightarrow>
     userId r = uid \<and> serviceId r = sid \<and> bnote r = nt \<and> status r = CONFIRMED
     \<and> endAt r = startAt r + SESSION_MIN * 60 * 1000"
    by (auto simp: insertedRows_def withId_fields sessionRow_fields)
qed

text \<open>
  C6.  A commit is all or nothing.  Either the store is left exactly as it was, and the
  answer is not a success (a conflict answer in particular leaves the store untouched); or
  the answer is a success and the Booking table has grown by exactly one row for each
  computed session start, in order, all confirmed and carrying the user, the service and
  the note of the request, each ending 15 minutes after its start; the other tables are
  the same.  No run adds rows for a part of the sessions only.
\<close>

theorem postBookings_atomic:
  assumes "postBookings z now fault st user b = (resp, st')"
  shows "((st' = st \<and> (\<forall>n rows. resp \<noteq> Booked n rows))
      \<or> (\<exists>rows new. resp = Booked (nat (reqSessions b)) rows
            \<and> bookings st' = bookings st @ new
            \<and> services st' = services st \<and> slots st' = slots st
            \<and> map startAt new
                = buildSessionStartsUtc z (parseOsloDateTime (reqDate b) (reqStartTime b))
                    (reqSessions b)
            \<and> int (length new) = reqSessions b
            \<and> (\<forall>r \<in> set new. user = Some (userId r) \<and> serviceId r = reqServiceId b
                  \<and> bnote r = reqNote b \<and> status r = CONFIRMED
                  \<and> endAt r = startAt r + SESSION_MIN * 60 * 1000)))
     \<and> ((\<exists>cs. resp = Conflict cs) \<longrightarrow> st' = st)"
proof -
  define startsUtc where "startsUtc =
    buildSessionStartsUtc z (parseOsloDateTime (reqDate b) (reqStartTime b)) (reqSessions b)"
  note s = postBookings_store[OF assms, folded startsUtc_def]
  have len: "length startsUtc = nat (reqSessions b)"
    by (simp add: startsUtc_def length_buildSessionStartsUtc)
  show ?thesis
    using s
  proof (elim disjE exE conjE)
    assume "st' = st" "\<forall>n rows. resp \<noteq> Booked n rows"
    then show ?thesis by simp
  next
    fix uid rows
    assume u: "user = Some uid" and r: "resp = Booked (length startsUtc) rows"
      and s1: "1 \<le> reqSessions b"
      and st': "st' = afterInsert st uid (reqServiceId b) (reqNote b) startsUtc"
    let ?new = "insertedRows uid (reqServiceId b) (reqNote b) (nextId st) startsUtc"
    have "resp = Booked (nat (reqSessions b)) rows" using r len by simp
    moreover have "bookings st' = bookings st @ ?new" "services st' = services st"
        "slots st' = slots st"
      by (simp_all add: st' afterInsert_def)
    moreover have "map startAt ?new = startsUtc" by (rule insertedRows_facts(1))
    moreover have "int (length ?new) = reqSessions b"
      using s1 len by (simp add: insertedRows_facts(2))
    moreover have "\<forall>r \<in> set ?new. user = Some (userId r) \<and> serviceId r = reqServiceId b
                  \<and> bnote r = reqNote b \<and> status r = CONFIRMED
                  \<and> endAt r = startAt r + SESSION_MIN * 60 * 1000"
      using insertedRows_facts(3)[of _ uid "reqServiceId b" "reqNote b" "nextId st" startsUtc] u
      by blast
    ultimately show ?thesis
      unfolding startsUtc_def by blast
  qed
qed


text \<open>Two sessions from 11:00 in the example: both rows are written.\<close>

theorem postBookings_atomic_witness:
  "postBookings winter 0 None exampleStore (Some ''user-1'')
     \<lparr>reqServiceId = ''singing-15'', reqDate = ''2026-01-15'', reqStartTime = ''11:00'',
      reqSessions = 2, reqNote = None\<rparr>
   = (Booked 2
        [\<lparr>createdId = 0, createdStartAt = 1768471200000, createdEndAt = 1768472100000,
          createdStatus = CONFIRMED\<rparr>,
         \<lparr>createdId = 1, createdStartAt = 1768472400000, createdEndAt = 1768473300000,
          createdStatus = CONFIRMED\<rparr>],
      afterInsert exampleStore ''user-1'' ''singing-15'' None [1768471200000, 1768472400000])
   \<and> (\<exists>new. bookings (afterInsert exampleStore ''user-1'' ''singing-15'' None
                  [1768471200000, 1768472400000])
           = bookings exampleStore @ new
         \<and> map startAt new = [1768471200000, 1768472400000]
         \<and> (\<forall>r \<in> set new. userId r = ''user-1'' \<and> status r = CONFIRMED))"
proof -
  have h: "postBookings winter 0 None exampleStore (Some ''user-1'')
     \<lparr>reqServiceId = ''singing-15'', reqDate = ''2026-01-15'', reqStartTime = ''11:00'',
      reqSessions = 2, reqNote = None\<rparr>
   = (Booked 2
        [\<lparr>createdId = 0, createdStartAt = 1768471200000, createdEndAt = 1768472100000,
          createdStatus = CONFIRMED\<rparr>,
         \<lparr>createdId = 1, createdStartAt = 1768472400000, createdEndAt = 1768473300000,
          createdStatus = CONFIRMED\<rparr>],
      afterInsert exampleStore ''user-1'' ''singing-15'' None [1768471200000, 1768472400000])"
    by code_simp
  have s: "buildSessionStartsUtc winter (parseOsloDateTime ''2026-01-15'' ''11:00'') 2
      = [1768471200000, 1768472400000]"
    by code_simp
  show ?thesis
    using postBookings_atomic[OF h] h by (auto simp: s)
qed

subsection \<open>The invariant\<close>

lemma active_after_insert:
  "filter (\<lambda>b. status b \<noteq> CANCELLED) (bookings (afterInsert st uid sid nt startsUtc))
     = filter (\<lambda>b. status b \<noteq> CANCELLED) (bookings st) @ insertedRows uid sid nt (nextId st) startsUtc"
proof -
  have "filter (\<lambda>b. status b \<noteq> CANCELLED) (insertedRows uid sid nt (nextId st) startsUtc)
      = insertedRows uid sid nt (nextId st) startsUtc"
    using insertedRows_facts(3)[of _ uid sid nt "nextId st" startsUtc]
    by (simp add: filter_id_conv)
  then show ?thesis by (simp add: afterInsert_def)
qed

lemma keys_insertedRows:
  "map (\<lambda>b. (serviceId b, startAt b)) (insertedRows uid sid nt first startsUtc)
     = map (\<lambda>s. (sid, s)) startsUtc"
proof -
  have "map (\<lambda>b. (serviceId b, startAt b)) (insertedRows uid sid nt first startsUtc)
      = map (\<lambda>p. (sid, snd p)) (enumerate 0 startsUtc)"
    by (simp add: insertedRows_def withId_fields sessionRow_fields split_def o_def)
  also have "\<dots> = map (\<lambda>s. (sid, s)) (map snd (enumerate 0 startsUtc))"
    by (simp add: o_def del: map_snd_enumerate)
  finally show ?thesis by simp
qed

lemma uniqueActiveStarts_afterInsert:
  assumes inv: "uniqueActiveStarts st"
    and nocon: "conflictingBookings st sid startsUtc = []"
    and dist: "distinct startsUtc"
  shows "uniqueActiveStarts (afterInsert st uid sid nt startsUtc)"
proof -
  let ?old = "filter (\<lambda>b. status b \<noteq> CANCELLED) (bookings st)"
  have d1: "distinct (map (\<lambda>b. (serviceId b, startAt b)) ?old)"
    using inv by (simp add: uniqueActiveStarts_def)
  have d2: "distinct (map (\<lambda>s. (sid, s)) startsUtc)"
    using dist by (simp add: distinct_map inj_on_def)
  have disj: "set (map (\<lambda>b. (serviceId b, startAt b)) ?old) \<inter> set (map (\<lambda>s. (sid, s)) startsUtc) = {}"
  proof (rule ccontr)
    assume "\<not> ?thesis"
    then obtain b s where b: "b \<in> set (bookings st)" "status b \<noteq> CANCELLED"
        and s: "s \<in> set startsUtc" and e: "(serviceId b, startAt b) = (sid, s)"
      by auto
    then have "b \<in> set (conflictingBookings st sid startsUtc)"
      by (simp add: conflictingBookings_def)
    then show False using nocon by simp
  qed
  show ?thesis
    unfolding uniqueActiveStarts_def active_after_insert map_append keys_insertedRows
    using d1 d2 disj by simp
qed

lemma uniqueActiveStarts_cancelBooking:
  assumes "uniqueActiveStarts st"
  shows "uniqueActiveStarts (cancelBooking st k)"
proof -
  have "filter (\<lambda>b. status b \<noteq> CANCELLED)
          (map (\<lambda>b. if bookingId b = k then b\<lparr>status := CANCELLED\<rparr> else b) bs)
      = filter (\<lambda>b. bookingId b \<noteq> k) (filter (\<lambda>b. status b \<noteq> CANCELLED) bs)" for bs :: "Booking list"
    by (induction bs) simp_all
  moreover have "bookings (cancelBooking st k)
      = map (\<lambda>b. if bookingId b = k then b\<lparr>status := CANCELLED\<rparr> else b) (bookings st)"
    by (simp add: cancelBooking_def)
  ultimately have "filter (\<lambda>b. status b \<noteq> CANCELLED) (bookings (cancelBooking st k))
      = filter (\<lambda>b. bookingId b \<noteq> k) (filter (\<lambda>b. status b \<noteq> CANCELLED) (bookings st))"
    by (simp only:)
  then show ?thesis
    using assms unfolding uniqueActiveStarts_def by (simp only: distinct_map_filter)
qed

lemma uniqueActiveStarts_postBookings:
  assumes "uniqueActiveStarts st"
  shows "uniqueActiveStarts (snd (postBookings z now fault st user b))"
proof -
  obtain resp st' where r: "postBookings z now fault st user b = (resp, st')"
    by (cases "postBookings z now fault st user b")
  show ?thesis
    using postBookings_store[OF r]
  proof (elim disjE exE conjE)
    assume "st' = st"
    then show ?thesis using assms r by simp
  next
    fix uid rows
    assume s1: "1 \<le> reqSessions b"
      and ok: "validateWithinBusinessHours z (parseOsloDateTime (reqDate b) (reqStartTime b))
                (reqSessions b) = HoursOk"
      and nocon: "conflictingBookings st (reqServiceId b)
          (buildSessionStartsUtc z (parseOsloDateTime (reqDate b) (reqStartTime b)) (reqSessions b)) = []"
      and st': "st' = afterInsert st uid (reqServiceId b) (reqNote b)
          (buildSessionStartsUtc z (parseOsloDateTime (reqDate b) (reqStartTime b)) (reqSessions b))"
    show ?thesis
      unfolding r snd_conv st'
      by (rule uniqueActiveStarts_afterInsert[OF assms nocon distinct_session_starts[OF ok s1]])
  qed
qed

subsection \<open>Double booking, the created list and the conflict answer\<close>

text \<open>
  C1, amended.  In every store that arises from an empty Booking table by commits that run
  one after the other, each transaction as a unit, and by cancellations, the bookings of a
  service that are not cancelled have pairwise different start instants.  The conflict check
  inside the transaction is what keeps it so; the Booking table itself declares no
  uniqueness on service and start instant.
\<close>

theorem sequential_commits_unique:
  assumes "reachable st"
  shows "uniqueActiveStarts st"
  using assms
proof (induction rule: reachable.induct)
  case (initial st)
  then show ?case by (simp add: uniqueActiveStarts_def)
next
  case (commit st z now fault user b)
  then show ?case by (simp add: uniqueActiveStarts_postBookings)
next
  case (cancel st k)
  then show ?case by (simp add: uniqueActiveStarts_cancelBooking)
qed

text \<open>A commit on the example store, then a second commit of the same slot, which is refused.\<close>

theorem sequential_commits_unique_witness:
  "reachable (snd (postBookings winter 0 None bookedStore (Some ''user-2'')
       \<lparr>reqServiceId = ''singing-15'', reqDate = ''2026-01-15'', reqStartTime = ''09:00'',
        reqSessions = 1, reqNote = None\<rparr>))
   \<and> uniqueActiveStarts (snd (postBookings winter 0 None bookedStore (Some ''user-2'')
       \<lparr>reqServiceId = ''singing-15'', reqDate = ''2026-01-15'', reqStartTime = ''09:00'',
        reqSessions = 1, reqNote = None\<rparr>))
   \<and> bookedStore = snd (postBookings winter 0 None exampleStore (Some ''user-1'')
       \<lparr>reqServiceId = ''singing-15'', reqDate = ''2026-01-15'', reqStartTime = ''09:00'',
        reqSessions = 1, reqNote = None\<rparr>)"
proof -
  have e: "bookings exampleStore = []" by code_simp
  have b: "bookedStore = snd (postBookings winter 0 None exampleStore (Some ''user-1'')
       \<lparr>reqServiceId = ''singing-15'', reqDate = ''2026-01-15'', reqStartTime = ''09:00'',
        reqSessions = 1, reqNote = None\<rparr>)"
    by code_simp
  have "reachable bookedStore"
    unfolding b by (rule reachable.commit[OF reachable.initial[OF e]])
  then have r: "reachable (snd (postBookings winter 0 None bookedStore (Some ''user-2'')
       \<lparr>reqServiceId = ''singing-15'', reqDate = ''2026-01-15'', reqStartTime = ''09:00'',
        reqSessions = 1, reqNote = None\<rparr>))"
    by (rule reachable.commit)
  show ?thesis
    using sequential_commits_unique[OF r] r b by simp
qed

text \<open>
  The claim as stated fails: the storage layer holds no uniqueness constraint on service and
  start instant.  On the example store the conflict check for the 09:00 slot finds nothing;
  when the checks of two transactions have both run before either of them inserts, both
  \<open>createMany\<close> statements are accepted and the table holds two confirmed bookings of
  the service at the same instant.
\<close>

theorem storage_accepts_double_booking_counterexample:
  "conflictingBookings exampleStore ''singing-15'' [1768464000000] = []
   \<and> uniqueActiveStarts exampleStore
   \<and> uniqueActiveStarts
       (snd (createMany exampleStore [sessionRow ''user-1'' ''singing-15'' None 1768464000000]))
   \<and> \<not> uniqueActiveStarts
       (snd (createMany
          (snd (createMany exampleStore [sessionRow ''user-1'' ''singing-15'' None 1768464000000]))
          [sessionRow ''user-2'' ''singing-15'' None 1768464000000]))"
  by code_simp

text \<open>
  C7.  The list of a successful answer is fetched back by user, service and start instants,
  whatever the status: with an earlier, cancelled booking of the same user at the same
  instant in the table, the answer to a commit of one session reports one created row and
  lists two bookings, the cancelled one among them.
\<close>

theorem created_list_holds_cancelled_booking:
  "postBookings winter 0 None cancelledStore (Some ''user-1'')
     \<lparr>reqServiceId = ''singing-15'', reqDate = ''2026-01-15'', reqStartTime = ''09:00'',
      reqSessions = 1, reqNote = None\<rparr>
   = (Booked 1
        [\<lparr>createdId = 0, createdStartAt = 1768464000000, createdEndAt = 1768464900000,
          createdStatus = CANCELLED\<rparr>,
         \<lparr>createdId = 1, createdStartAt = 1768464000000, createdEndAt = 1768464900000,
          createdStatus = CONFIRMED\<rparr>],
      afterInsert cancelledStore ''user-1'' ''singing-15'' None [1768464000000])
   \<and> bookings cancelledStore
     = [\<lparr>userId = ''user-1'', serviceId = ''singing-15'', startAt = 1768464000000,
         endAt = 1768464900000, status = CANCELLED, bnote = None, bookingId = 0\<rparr>]"
  by code_simp

text \<open>
  C8, amended.  When every validation step has passed and the conflict check of the
  transaction finds bookings of the service that are not cancelled and start at one of the
  computed instants, the commit inserts nothing, leaves the store as it was, and answers
  with a conflict that carries, for each of those bookings, its primary key and its start
  instant as stored.
\<close>

theorem conflict_answer:
  assumes "createBookingSchema b" and "firstFailure (pipeline_spec z now st b) = None"
    and "conflictingBookings st (reqServiceId b)
           (buildSessionStartsUtc z (parseOsloDateTime (reqDate b) (reqStartTime b)) (reqSessions b))
         \<noteq> []"
    and "uid \<noteq> []"
  shows "postBookings z now fault st (Some uid) b
     = (Conflict (map selectConflict
          (conflictingBookings st (reqServiceId b)
             (buildSessionStartsUtc z (parseOsloDateTime (reqDate b) (reqStartTime b))
                (reqSessions b)))),
        st)"
  using postBookings_pipeline[OF assms(1,4), where z = z and now = now and st = st
      and fault = fault] assms(2,3)
  by (simp add: bookingTransaction_cases)

theorem conflict_answer_witness:
  "postBookings winter 0 None bookedStore (Some ''user-2'')
     \<lparr>reqServiceId = ''singing-15'', reqDate = ''2026-01-15'', reqStartTime = ''09:00'',
      reqSessions = 3, reqNote = None\<rparr>
   = (Conflict [\<lparr>conflictId = 0, conflictStartAt = 1768464000000\<rparr>], bookedStore)"
proof -
  let ?b = "\<lparr>reqServiceId = ''singing-15'', reqDate = ''2026-01-15'', reqStartTime = ''09:00'',
      reqSessions = 3, reqNote = None\<rparr>"
  have h1: "createBookingSchema ?b" by code_simp
  have h2: "firstFailure (pipeline_spec winter 0 bookedStore ?b) = None" by code_simp
  have c: "conflictingBookings bookedStore (reqServiceId ?b)
           (buildSessionStartsUtc winter (parseOsloDateTime (reqDate ?b) (reqStartTime ?b)) (reqSessions ?b))
         = [withId 0 (sessionRow ''user-1'' ''singing-15'' None 1768464000000)]"
    by code_simp
  have h3: "conflictingBookings bookedStore (reqServiceId ?b)
           (buildSessionStartsUtc winter (parseOsloDateTime (reqDate ?b) (reqStartTime ?b)) (reqSessions ?b))
         \<noteq> []"
    unfolding c by simp
  have s: "map selectConflict [withId 0 (sessionRow ''user-1'' ''singing-15'' None 1768464000000)]
      = [\<lparr>conflictId = 0, conflictStartAt = 1768464000000\<rparr>]"
    by code_simp
  have h4: "''user-2'' \<noteq> []" by simp
  show ?thesis
    using conflict_answer[OF h1 h2 h3 h4, where fault = None]
    unfolding c s by simp
qed

text \<open>
  The claim as stated fails: what the conflict carries for the 09:00 slot of a winter day is
  the stored instant, which reads 08:00 on the UTC clock, not the local time of day.
\<close>

theorem conflict_carries_instant_counterexample:
  "postBookings winter 0 None bookedStore (Some ''user-2'')
     \<lparr>reqServiceId = ''singing-15'', reqDate = ''2026-01-15'', reqStartTime = ''09:00'',
      reqSessions = 1, reqNote = None\<rparr>
   = (Conflict [\<lparr>conflictId = 0, conflictStartAt = 1768464000000\<rparr>], bookedStore)
   \<and> toMillis winter (parseOsloDateTime ''2026-01-15'' ''09:00'') = 1768464000000
   \<and> lmin (parseOsloDateTime ''2026-01-15'' ''09:00'') mod 1440 = 9 * 60
   \<and> (1768464000000 div (60 * 1000)) mod 1440 = (8 * 60 :: int)"
  by code_simp

text \<open>
  C5, amended.  When every validation step has passed, the conflict check has found nothing
  and the storage layer raises an error at the insert, be it a uniqueness violation or any
  other, the handler catches it, leaves the store as it was and answers with the opaque
  server error (status 500), not with a conflict.
\<close>

theorem insert_failure_answer:
  assumes "createBookingSchema b" and "firstFailure (pipeline_spec z now st b) = None"
    and "conflictingBookings st (reqServiceId b)
           (buildSessionStartsUtc z (parseOsloDateTime (reqDate b) (reqStartTime b)) (reqSessions b))
         = []"
    and "uid \<noteq> []"
  shows "postBookings z now (Some e) st (Some uid) b = (ServerError, st)
     \<and> statusCode (fst (postBookings z now (Some e) st (Some uid) b)) = 500"
  using postBookings_pipeline[OF assms(1,4), where z = z and now = now and st = st
      and fault = "Some e"] assms(2,3)
  by (simp add: bookingTransaction_cases)

theorem insert_failure_answer_witness:
  "postBookings winter 0 (Some UniqueConstraintFailed) exampleStore (Some ''user-1'')
     \<lparr>reqServiceId = ''singing-15'', reqDate = ''2026-01-15'', reqStartTime = ''10:00'',
      reqSessions = 2, reqNote = Some ''first lesson''\<rparr>
   = (ServerError, exampleStore)"
proof -
  let ?b = "\<lparr>reqServiceId = ''singing-15'', reqDate = ''2026-01-15'', reqStartTime = ''10:00'',
      reqSessions = 2, reqNote = Some ''first lesson''\<rparr>"
  have h1: "createBookingSchema ?b" by code_simp
  have h2: "firstFailure (pipeline_spec winter 0 exampleStore ?b) = None" by code_simp
  have h3: "conflictingBookings exampleStore (reqServiceId ?b)
           (buildSessionStartsUtc winter (parseOsloDateTime (reqDate ?b) (reqStartTime ?b)) (reqSessions ?b))
         = []"
    by code_simp
  have h4: "''user-1'' \<noteq> []" by simp
  show ?thesis
    using insert_failure_answer[OF h1 h2 h3 h4, where e = UniqueConstraintFailed]
    by simp
qed

text \<open>
  The claim as stated fails: a uniqueness violation raised at the insert is answered with
  status 500, while a conflict found by the check is answered with status 409.
\<close>

theorem unique_violation_not_conflict_counterexample:
  "postBookings winter 0 (Some UniqueConstraintFailed) exampleStore (Some ''user-2'')
     \<lparr>reqServiceId = ''singing-15'', reqDate = ''2026-01-15'', reqStartTime = ''09:00'',
      reqSessions = 1, reqNote = None\<rparr>
   = (ServerError, exampleStore)
   \<and> statusCode ServerError = 500
   \<and> postBookings winter 0 (Some UniqueConstraintFailed) bookedStore (Some ''user-2'')
     \<lparr>reqServiceId = ''singing-15'', reqDate = ''2026-01-15'', reqStartTime = ''09:00'',
      reqSessions = 1, reqNote = None\<rparr>
   = (Conflict [\<lparr>conflictId = 0, conflictStartAt = 1768464000000\<rparr>], bookedStore)
   \<and> statusCode (Conflict [\<lparr>conflictId = 0, conflictStartAt = 1768464000000\<rparr>]) = 409"
  by code_simp

end
